theory Spec2Isabelle
  imports Main "HOL-Library.Sublist"
begin

section \<open>Text\<close>

text \<open>
  A Python \<open>str\<close> is a sequence of Unicode code points, so it is modelled as a list of
  code points. \<open>py\<close> turns an ASCII literal into such a text.
\<close>

type_synonym pystr = "nat list"

definition py :: "string \<Rightarrow> pystr" where
  "py s = map of_char s"

definition newline :: nat where
  "newline = 10"

text \<open>The em dash U+2014 that \<open>get_quote\<close> puts between quote and author.\<close>

definition em_dash :: nat where
  "em_dash = 8212"

text \<open>Python's \<open>str(n)\<close> for an \<open>int\<close>: decimal digits, with a minus sign when negative.\<close>

fun str_nat :: "nat \<Rightarrow> pystr" where
  "str_nat n = (if n < 10 then [48 + n] else str_nat (n div 10) @ [48 + n mod 10])"

definition str_int :: "int \<Rightarrow> pystr" where
  "str_int i = (if i < 0 then 45 # str_nat (nat (- i)) else str_nat (nat i))"

section \<open>The bot's state\<close>

text \<open>
  What \<open>response.json()\<close> returns: a parsed JSON document as a Python value. A float
  is kept as the text \<open>str()\<close> gives for it; a list and a dictionary carry, beside
  their contents, the text \<open>str()\<close> gives for them.
\<close>

datatype json =
    JNull
  | JBool bool
  | JInt int
  | JFloat pystr
  | JStr pystr
  | JArr "json list" pystr
  | JObj "(pystr \<times> json) list" pystr

text \<open>The exceptions that the body of \<open>get_quote\<close> can raise, all subclasses of \<open>Exception\<close>.\<close>

datatype exn = RequestException | JSONDecodeError | IndexError | KeyError | TypeError

text \<open>
  The outcome of \<open>requests.get\<close>: it raises, or it returns a response with a status code
  and a body that \<open>response.json()\<close> parses (\<open>Some\<close>) or rejects (\<open>None\<close>).
\<close>

datatype http_outcome = Raises | Responds int "json option"

datatype log_entry = QuoteFetchError exn | UpdateError

text \<open>
  A message handed to \<open>context.bot.send_message\<close>: plain text, or the fixed MarkdownV2
  block of the \<open>/faq\<close> command.
\<close>

datatype message = Text pystr | FaqMarkdown

text \<open>
  An incoming update: the chat it came from, the sender and the sender's first name, and
  the text of the message.
\<close>

record update =
  chat_id :: int
  user_id :: int
  first_name :: pystr
  message_text :: pystr

text \<open>
  The state the handlers read and write: the global \<open>MESSAGE_COUNTER\<close>, the two files
  (\<open>None\<close> when the file does not exist), \<open>context.user_data\<close> for each user, the messages
  sent so far (oldest first, with their destination chat) and the error log.
  \<open>send_message\<close> is taken to deliver, and a file that exists to be readable and
  writable.
\<close>

record bot =
  MESSAGE_COUNTER :: int
  SONG_FILE :: "pystr option"
  ACTIVITY_FILE :: "pystr option"
  user_data :: "int \<Rightarrow> (pystr \<rightharpoonup> pystr)"
  outbox :: "(int \<times> message) list"
  log :: "log_entry list"

definition send_message :: "int \<Rightarrow> message \<Rightarrow> bot \<Rightarrow> bot" where
  "send_message c m s = s\<lparr>outbox := outbox s @ [(c, m)]\<rparr>"

definition logger_error :: "log_entry \<Rightarrow> bot \<Rightarrow> bot" where
  "logger_error e s = s\<lparr>log := log s @ [e]\<rparr>"

section \<open>The quote fetcher\<close>

text \<open>\<open>quote_json[0]\<close>: the first element of a list or string; anything else raises.\<close>

fun getitem_0 :: "json \<Rightarrow> exn + json" where
  "getitem_0 (JArr [] t) = Inl IndexError"
| "getitem_0 (JArr (x # xs) t) = Inr x"
| "getitem_0 (JStr []) = Inl IndexError"
| "getitem_0 (JStr (c # cs)) = Inr (JStr [c])"
| "getitem_0 (JObj kvs t) = Inl KeyError"
| "getitem_0 v = Inl TypeError"

text \<open>\<open>x['q']\<close>: a dictionary lookup; on anything but a dictionary a \<open>TypeError\<close>.\<close>

fun getitem_key :: "pystr \<Rightarrow> json \<Rightarrow> exn + json" where
  "getitem_key k (JObj kvs t) = (case map_of kvs k of None \<Rightarrow> Inl KeyError | Some v \<Rightarrow> Inr v)"
| "getitem_key k v = Inl TypeError"

text \<open>A value inside an f-string: the text \<open>str()\<close> gives for it.\<close>

fun format_value :: "json \<Rightarrow> pystr" where
  "format_value JNull = py ''None''"
| "format_value (JBool b) = (if b then py ''True'' else py ''False'')"
| "format_value (JInt i) = str_int i"
| "format_value (JFloat t) = t"
| "format_value (JStr s) = s"
| "format_value (JArr xs t) = t"
| "format_value (JObj kvs t) = t"

text \<open>The \<open>try\<close> block of \<open>get_quote\<close>: the text returned, or the exception raised.\<close>

definition get_quote_try :: "http_outcome \<Rightarrow> exn + pystr" where
  "get_quote_try r =
     (case r of
        Raises \<Rightarrow> Inl RequestException
      | Responds status_code body \<Rightarrow>
          if status_code = 200 then
            (case body of
               None \<Rightarrow> Inl JSONDecodeError
             | Some quote_json \<Rightarrow>
                 (case getitem_0 quote_json of
                    Inl e \<Rightarrow> Inl e
                  | Inr first \<Rightarrow>
                      (case getitem_key (py ''q'') first of
                         Inl e \<Rightarrow> Inl e
                       | Inr q \<Rightarrow>
                           (case getitem_key (py ''a'') first of
                              Inl e \<Rightarrow> Inl e
                            | Inr a \<Rightarrow>
                                Inr (format_value q @ [32, em_dash, 32]
                                       @ format_value a)))))
          else Inr (py ''Sorry, I couldn't fetch a quote at the moment.''))"

definition get_quote :: "http_outcome \<Rightarrow> bot \<Rightarrow> pystr \<times> bot" where
  "get_quote r s =
     (case get_quote_try r of
        Inr q \<Rightarrow> (q, s)
      | Inl e \<Rightarrow>
          (py ''Sorry, something went wrong while fetching the quote.'',
           logger_error (QuoteFetchError e) s))"

definition quote :: "http_outcome \<Rightarrow> update \<Rightarrow> bot \<Rightarrow> bot" where
  "quote r u s =
     (let (q, s1) = get_quote r s
      in send_message (chat_id u) (Text q) s1)"

section \<open>The message counter\<close>

definition track_messages :: "http_outcome \<Rightarrow> update \<Rightarrow> bot \<Rightarrow> bot" where
  "track_messages r u s =
     (let s1 = s\<lparr>MESSAGE_COUNTER := MESSAGE_COUNTER s + 1\<rparr>
      in if MESSAGE_COUNTER s1 \<ge> 20 then
           (let s2 = s1\<lparr>MESSAGE_COUNTER := 0\<rparr>;
                (q, s3) = get_quote r s2
            in send_message (chat_id u)
                 (Text (py ''Here's a motivational quote for you:'' @ [newline, newline] @ q)) s3)
         else s1)"

text \<open>
  A run of non-command text messages, each handled by \<open>track_messages\<close>; every message
  comes with the outcome the quote request would have at that moment.
\<close>

fun track_all :: "(update \<times> http_outcome) list \<Rightarrow> bot \<Rightarrow> bot" where
  "track_all [] s = s"
| "track_all ((u, r) # ms) s = track_all ms (track_messages r u s)"

section \<open>The two list files\<close>

text \<open>
  A file holds the text written to it. \<open>open(f, 'a')\<close> creates the file when it is missing
  and \<open>write\<close> puts the text at its end; on a POSIX system text mode writes the text as
  it is.
\<close>

definition file_append :: "pystr option \<Rightarrow> pystr \<Rightarrow> pystr" where
  "file_append f t = (case f of None \<Rightarrow> t | Some c \<Rightarrow> c @ t)"

text \<open>
  \<open>file.read()\<close> in text mode has universal newlines: a carriage return, alone or followed
  by a line feed, is read as one line feed.
\<close>

fun universal_newlines :: "pystr \<Rightarrow> pystr" where
  "universal_newlines [] = []"
| "universal_newlines [c] = [if c = 13 then newline else c]"
| "universal_newlines (c # d # ds) =
     (if c = 13 \<and> d = 10 then newline # universal_newlines ds
      else if c = 13 then newline # universal_newlines (d # ds)
      else c # universal_newlines (d # ds))"

text \<open>\<open>str.isspace\<close> for one code point, and \<open>str.strip()\<close>.\<close>

definition py_isspace :: "nat \<Rightarrow> bool" where
  "py_isspace c \<longleftrightarrow>
     (9 \<le> c \<and> c \<le> 13) \<or> (28 \<le> c \<and> c \<le> 32) \<or> c = 133 \<or> c = 160 \<or> c = 5760
     \<or> (8192 \<le> c \<and> c \<le> 8202) \<or> c = 8232 \<or> c = 8233 \<or> c = 8239 \<or> c = 8287
     \<or> c = 12288"

definition strip :: "pystr \<Rightarrow> pystr" where
  "strip t = rev (dropWhile py_isspace (rev (dropWhile py_isspace t)))"

text \<open>The lines of a text, as \<open>readlines\<close> gives them, without their line feeds.\<close>

fun split_lines :: "pystr \<Rightarrow> pystr \<Rightarrow> pystr list" where
  "split_lines acc [] = (if acc = [] then [] else [acc])"
| "split_lines acc (c # cs) =
     (if c = newline then acc # split_lines [] cs else split_lines (acc @ [c]) cs)"

definition lines_of :: "pystr \<Rightarrow> pystr list" where
  "lines_of t = split_lines [] t"

definition content :: "pystr option \<Rightarrow> pystr" where
  "content f = (case f of None \<Rightarrow> [] | Some c \<Rightarrow> c)"

section \<open>Command handlers\<close>

definition display_lists :: "update \<Rightarrow> bot \<Rightarrow> bot" where
  "display_lists u s =
     (let song_list =
            (case SONG_FILE s of
               None \<Rightarrow> py ''No songs available.''
             | Some c \<Rightarrow>
                 (let t = strip (universal_newlines c)
                  in if t = [] then py ''No songs available.'' else t));
          activity_list =
            (case ACTIVITY_FILE s of
               None \<Rightarrow> py ''No activities available.''
             | Some c \<Rightarrow>
                 (let t = strip (universal_newlines c)
                  in if t = [] then py ''No activities available.'' else t));
          combined_list =
            py ''Song List:'' @ [newline] @ song_list @ [newline, newline] @ py ''-----''
              @ [newline, newline] @ py ''Activity List:'' @ [newline] @ activity_list
      in send_message (chat_id u) (Text combined_list) s)"

definition start :: "update \<Rightarrow> bot \<Rightarrow> bot" where
  "start u s = send_message (chat_id u) (Text (py ''Hello! Welcome to the Wedding Planning Bot.'')) s"

definition faq :: "update \<Rightarrow> bot \<Rightarrow> bot" where
  "faq u s = send_message (chat_id u) FaqMarkdown s"

section \<open>The song and activity dialogs\<close>

datatype conv = SONG_NAME | SONG_ARTIST | SUGGEST_ACTIVITY | END

definition song_command :: "update \<Rightarrow> bot \<Rightarrow> conv \<times> bot" where
  "song_command u s =
     (SONG_NAME,
      send_message (chat_id u) (Text (first_name u @ py '', please enter the song title:'')) s)"

definition get_song_name :: "update \<Rightarrow> bot \<Rightarrow> conv \<times> bot" where
  "get_song_name u s =
     (let s1 = s\<lparr>user_data :=
                  (user_data s)(user_id u := (user_data s (user_id u))(py ''song_name'' \<mapsto> message_text u))\<rparr>
      in (SONG_ARTIST, send_message (chat_id u) (Text (py ''Now, enter the artist's name:'')) s1))"

text \<open>
  \<open>user_data.get('song_name')\<close> is \<open>None\<close> when no title was stored, and the f-string
  then prints \<open>None\<close>.
\<close>

definition format_optional :: "pystr option \<Rightarrow> pystr" where
  "format_optional v = (case v of None \<Rightarrow> py ''None'' | Some t \<Rightarrow> t)"

definition get_song_artist :: "update \<Rightarrow> bot \<Rightarrow> conv \<times> bot" where
  "get_song_artist u s =
     (let song_name = user_data s (user_id u) (py ''song_name'');
          artist_name = message_text u;
          written = file_append (SONG_FILE s)
                      (format_optional song_name @ py '' - '' @ artist_name @ [newline]);
          s1 = s\<lparr>SONG_FILE := Some written\<rparr>;
          s2 = send_message (chat_id u) (Text (py ''Song added! Here is the updated playlist:'')) s1;
          song_list = universal_newlines written
      in (END, send_message (chat_id u) (Text song_list) s2))"

definition suggest_activity :: "update \<Rightarrow> bot \<Rightarrow> conv \<times> bot" where
  "suggest_activity u s =
     (SUGGEST_ACTIVITY,
      send_message (chat_id u)
        (Text (first_name u @ py '', please suggest an activity for the wedding:'')) s)"

definition get_activity :: "update \<Rightarrow> bot \<Rightarrow> conv \<times> bot" where
  "get_activity u s =
     (let activity = message_text u;
          written = file_append (ACTIVITY_FILE s) (activity @ [newline]);
          s1 = s\<lparr>ACTIVITY_FILE := Some written\<rparr>;
          s2 = send_message (chat_id u)
                 (Text (py ''Activity added! Here is the updated activity list:'')) s1;
          activity_list = universal_newlines written
      in (END, send_message (chat_id u) (Text activity_list) s2))"

text \<open>
  One submission through the song dialog: \<open>/song\<close>, then the title, then the artist, all
  from the same user in the same chat. Likewise one submission through the activity
  dialog.
\<close>

definition submit_song :: "update \<Rightarrow> pystr \<times> pystr \<Rightarrow> bot \<Rightarrow> bot" where
  "submit_song u p s =
     snd (get_song_artist (u\<lparr>message_text := snd p\<rparr>)
       (snd (get_song_name (u\<lparr>message_text := fst p\<rparr>)
         (snd (song_command u s)))))"

fun submit_songs :: "(update \<times> pystr \<times> pystr) list \<Rightarrow> bot \<Rightarrow> bot" where
  "submit_songs [] s = s"
| "submit_songs ((u, p) # ps) s = submit_songs ps (submit_song u p s)"

definition submit_activity :: "update \<Rightarrow> pystr \<Rightarrow> bot \<Rightarrow> bot" where
  "submit_activity u a s =
     snd (get_activity (u\<lparr>message_text := a\<rparr>) (snd (suggest_activity u s)))"

fun submit_activities :: "(update \<times> pystr) list \<Rightarrow> bot \<Rightarrow> bot" where
  "submit_activities [] s = s"
| "submit_activities ((u, a) # ps) s = submit_activities ps (submit_activity u a s)"

definition song_entry :: "pystr \<times> pystr \<Rightarrow> pystr" where
  "song_entry p = fst p @ py '' - '' @ snd p"

section \<open>Dates and the countdown\<close>

text \<open>
  A naive \<open>datetime\<close> and the arithmetic of Python's \<open>datetime\<close> module on it: the
  proleptic Gregorian ordinal of a date, the day of the week (Monday is 0), and the
  difference of two datetimes as a normalised \<open>timedelta\<close>.
\<close>

record datetime =
  year :: int
  month :: int
  day :: int
  hour :: int
  minute :: int
  second :: int
  microsecond :: int

record timedelta =
  days :: int
  seconds :: int
  microseconds :: int

definition is_leap :: "int \<Rightarrow> bool" where
  "is_leap y \<longleftrightarrow> y mod 4 = 0 \<and> (y mod 100 \<noteq> 0 \<or> y mod 400 = 0)"

definition days_before_year :: "int \<Rightarrow> int" where
  "days_before_year y = (let z = y - 1 in z * 365 + z div 4 - z div 100 + z div 400)"

definition DAYS_IN_MONTH :: "int list" where
  "DAYS_IN_MONTH = [-1, 31, 28, 31, 30, 31, 30, 31, 31, 30, 31, 30, 31]"

definition DAYS_BEFORE_MONTH :: "int list" where
  "DAYS_BEFORE_MONTH = [-1, 0, 31, 59, 90, 120, 151, 181, 212, 243, 273, 304, 334]"

definition days_in_month :: "int \<Rightarrow> int \<Rightarrow> int" where
  "days_in_month y m = (if m = 2 \<and> is_leap y then 29 else DAYS_IN_MONTH ! nat m)"

definition days_before_month :: "int \<Rightarrow> int \<Rightarrow> int" where
  "days_before_month y m = DAYS_BEFORE_MONTH ! nat m + (if m > 2 \<and> is_leap y then 1 else 0)"

definition ymd2ord :: "int \<Rightarrow> int \<Rightarrow> int \<Rightarrow> int" where
  "ymd2ord y m d = days_before_year y + days_before_month y m + d"

definition toordinal :: "datetime \<Rightarrow> int" where
  "toordinal t = ymd2ord (year t) (month t) (day t)"

definition weekday :: "datetime \<Rightarrow> int" where
  "weekday t = (toordinal t + 6) mod 7"

text \<open>The datetimes that Python's constructor accepts.\<close>

definition valid_datetime :: "datetime \<Rightarrow> bool" where
  "valid_datetime t \<longleftrightarrow>
     1 \<le> year t \<and> year t \<le> 9999 \<and> 1 \<le> month t \<and> month t \<le> 12
     \<and> 1 \<le> day t \<and> day t \<le> days_in_month (year t) (month t)
     \<and> 0 \<le> hour t \<and> hour t \<le> 23 \<and> 0 \<le> minute t \<and> minute t \<le> 59
     \<and> 0 \<le> second t \<and> second t \<le> 59 \<and> 0 \<le> microsecond t \<and> microsecond t \<le> 999999"

text \<open>
  The constructor \<open>timedelta(days, seconds, microseconds)\<close> on integers carries
  microseconds into seconds and seconds into days, so that
  \<open>0 \<le> seconds < 86400\<close> and \<open>0 \<le> microseconds < 1000000\<close>.
\<close>

definition timedelta_of :: "int \<Rightarrow> int \<Rightarrow> int \<Rightarrow> timedelta" where
  "timedelta_of d s us =
     (let s1 = s + us div 1000000
      in \<lparr>days = d + s1 div 86400, seconds = s1 mod 86400, microseconds = us mod 1000000\<rparr>)"

text \<open>\<open>a - b\<close> on two datetimes.\<close>

definition datetime_sub :: "datetime \<Rightarrow> datetime \<Rightarrow> timedelta" where
  "datetime_sub a b =
     (let days1 = toordinal a;
          days2 = toordinal b;
          secs1 = second a + minute a * 60 + hour a * 3600;
          secs2 = second b + minute b * 60 + hour b * 3600
      in timedelta_of (days1 - days2) (secs1 - secs2) (microsecond a - microsecond b))"

text \<open>\<open>a < b\<close> on two datetimes: the fields compared in order, as tuples.\<close>

definition datetime_less :: "datetime \<Rightarrow> datetime \<Rightarrow> bool" where
  "datetime_less a b \<longleftrightarrow>
     year a < year b \<or> (year a = year b \<and>
     (month a < month b \<or> (month a = month b \<and>
     (day a < day b \<or> (day a = day b \<and>
     (hour a < hour b \<or> (hour a = hour b \<and>
     (minute a < minute b \<or> (minute a = minute b \<and>
     (second a < second b \<or> (second a = second b \<and>
      microsecond a < microsecond b)))))))))))"

definition WEDDING_DATE :: datetime where
  "WEDDING_DATE = \<lparr>year = 2026, month = 12, day = 12, hour = 0, minute = 0, second = 0,
     microsecond = 0\<rparr>"

text \<open>The text of the countdown message for the given days, hours and minutes.\<close>

definition countdown_text :: "int \<Rightarrow> int \<Rightarrow> int \<Rightarrow> pystr" where
  "countdown_text d h m =
     py ''The wedding is in '' @ str_int d @ py '' days, '' @ str_int h @ py '' hours, and ''
       @ str_int m @ py '' minutes!''"

text \<open>\<open>calculate_days_until\<close>, with the value of \<open>datetime.now()\<close> as its argument.\<close>

definition calculate_days_until :: "datetime \<Rightarrow> int \<times> pystr" where
  "calculate_days_until today =
     (let delta = datetime_sub WEDDING_DATE today;
          days_remaining = days delta;
          seconds_remaining = seconds delta;
          hours_remaining = seconds_remaining div 3600;
          minutes_remaining = (seconds_remaining mod 3600) div 60;
          countdown_message = countdown_text days_remaining hours_remaining minutes_remaining
      in (days_remaining, countdown_message))"

definition countdown :: "datetime \<Rightarrow> update \<Rightarrow> bot \<Rightarrow> bot" where
  "countdown today u s =
     (let (days_remaining, countdown_message) = calculate_days_until today
      in send_message (chat_id u) (Text countdown_message) s)"

text \<open>
  \<open>auto_post_countdown\<close> reads the clock twice: \<open>today\<close> inside
  \<open>calculate_days_until\<close>, and \<open>now\<close> in the branch that looks at the calendar.
\<close>

definition auto_post_countdown :: "datetime \<Rightarrow> datetime \<Rightarrow> bot \<Rightarrow> bot" where
  "auto_post_countdown today now s =
     (let (days_remaining, countdown_message) = calculate_days_until today;
          chat = - 4530637343
      in if days_remaining > 30 then
           (if day now = 1 then send_message chat (Text countdown_message) s else s)
         else if days_remaining > 7 then
           (if weekday now = 0 then send_message chat (Text countdown_message) s else s)
         else send_message chat (Text countdown_message) s)"

section \<open>The error handler and the system as a whole\<close>

text \<open>\<open>error_handler\<close>, with \<open>update.effective_chat\<close> as its argument.\<close>

definition error_handler :: "int option \<Rightarrow> bot \<Rightarrow> bot" where
  "error_handler effective_chat s =
     (let s1 = logger_error UpdateError s
      in case effective_chat of
           None \<Rightarrow> s1
         | Some c \<Rightarrow> send_message c (Text (py ''An error occurred!'')) s1)"

text \<open>
  Every operation of the bot, with what it takes from outside: the update, the clock
  readings, the outcome of the quote request.
\<close>

datatype event =
    Start update
  | Countdown datetime update
  | Faq update
  | Quote http_outcome update
  | DisplayLists update
  | SongCommand update
  | GetSongName update
  | GetSongArtist update
  | SuggestActivity update
  | GetActivity update
  | TrackMessages http_outcome update
  | AutoPostCountdown datetime datetime
  | ErrorHandler "int option"

fun step :: "event \<Rightarrow> bot \<Rightarrow> bot" where
  "step (Start u) s = start u s"
| "step (Countdown today u) s = countdown today u s"
| "step (Faq u) s = faq u s"
| "step (Quote r u) s = quote r u s"
| "step (DisplayLists u) s = display_lists u s"
| "step (SongCommand u) s = snd (song_command u s)"
| "step (GetSongName u) s = snd (get_song_name u s)"
| "step (GetSongArtist u) s = snd (get_song_artist u s)"
| "step (SuggestActivity u) s = snd (suggest_activity u s)"
| "step (GetActivity u) s = snd (get_activity u s)"
| "step (TrackMessages r u) s = track_messages r u s"
| "step (AutoPostCountdown today now) s = auto_post_countdown today now s"
| "step (ErrorHandler c) s = error_handler c s"

fun run :: "event list \<Rightarrow> bot \<Rightarrow> bot" where
  "run [] s = s"
| "run (e # es) s = run es (step e s)"

text \<open>The state of a freshly started bot on a machine without the two files.\<close>

definition initial :: bot where
  "initial = \<lparr>MESSAGE_COUNTER = 0, SONG_FILE = None, ACTIVITY_FILE = None,
     user_data = (\<lambda>u. Map.empty), outbox = [], log = []\<rparr>"

text \<open>
  The time from \<open>today\<close> to the wedding in microseconds, counted from the ordinals of the
  two dates and their times of day.
\<close>

definition remaining_us :: "datetime \<Rightarrow> int" where
  "remaining_us today =
     ((toordinal WEDDING_DATE - toordinal today) * 86400
        + ((second WEDDING_DATE + minute WEDDING_DATE * 60 + hour WEDDING_DATE * 3600)
           - (second today + minute today * 60 + hour today * 3600))) * 1000000
     + (microsecond WEDDING_DATE - microsecond today)"

text \<open>Datetimes used in the examples below.\<close>

definition at_midnight :: "int \<Rightarrow> int \<Rightarrow> int \<Rightarrow> datetime" where
  "at_midnight y m d = \<lparr>year = y, month = m, day = d, hour = 0, minute = 0, second = 0,
     microsecond = 0\<rparr>"

definition day_after :: datetime where
  "day_after = \<lparr>year = 2026, month = 12, day = 13, hour = 9, minute = 30, second = 0,
     microsecond = 0\<rparr>"

text \<open>An update used in the examples below.\<close>

definition alice :: update where
  "alice = \<lparr>chat_id = 7, user_id = 1, first_name = py ''Alice'', message_text = py ''hello''\<rparr>"

text \<open>
  The song dialog as the specification describes it, with the dialog state held for each
  chat and user: \<open>spec_song_lines\<close> follows a sequence of operations and gives the entry
  \<open><title> - <artist>\<close> of every artist reply that answers a title entered in the same
  dialog. \<open>in_turn\<close> holds of a sequence of operations in which every artist reply
  answers the title that the same user entered last, and entered in the same chat.
\<close>

fun spec_song_lines :: "(int \<times> int \<Rightarrow> pystr option) \<Rightarrow> event list \<Rightarrow> pystr list" where
  "spec_song_lines pending [] = []"
| "spec_song_lines pending (GetSongName u # es) =
     spec_song_lines (pending((chat_id u, user_id u) := Some (message_text u))) es"
| "spec_song_lines pending (GetSongArtist u # es) =
     (case pending (chat_id u, user_id u) of
        None \<Rightarrow> spec_song_lines pending es
      | Some title \<Rightarrow>
          song_entry (title, message_text u)
            # spec_song_lines (pending((chat_id u, user_id u) := None)) es)"
| "spec_song_lines pending (e # es) = spec_song_lines pending es"

fun in_turn :: "(int \<Rightarrow> int option) \<Rightarrow> event list \<Rightarrow> bool" where
  "in_turn chat_of [] = True"
| "in_turn chat_of (GetSongName u # es) = in_turn (chat_of(user_id u := Some (chat_id u))) es"
| "in_turn chat_of (GetSongArtist u # es) =
     (chat_of (user_id u) = Some (chat_id u) \<and> in_turn (chat_of(user_id u := None)) es)"
| "in_turn chat_of (e # es) = in_turn chat_of es"

text \<open>More datetimes, a second update and a sequence of operations for the examples.\<close>

definition friday_noon :: datetime where
  "friday_noon = \<lparr>year = 2026, month = 12, day = 4, hour = 12, minute = 0, second = 0,
     microsecond = 0\<rparr>"

definition monday_morning :: datetime where
  "monday_morning = \<lparr>year = 2026, month = 11, day = 23, hour = 9, minute = 30, second = 0,
     microsecond = 0\<rparr>"

definition bob :: update where
  "bob = \<lparr>chat_id = 8, user_id = 2, first_name = py ''Bob'', message_text = py ''hi''\<rparr>"

definition two_dialogs :: "event list" where
  "two_dialogs =
     [SongCommand alice, GetSongName (alice\<lparr>message_text := py ''Yesterday''\<rparr>),
      SongCommand bob, GetSongName (bob\<lparr>message_text := py ''Thriller''\<rparr>),
      TrackMessages Raises alice,
      GetSongArtist (alice\<lparr>message_text := py ''Beatles''\<rparr>),
      DisplayLists bob,
      GetSongArtist (bob\<lparr>message_text := py ''Jackson''\<rparr>)]"

text \<open>Two states with both files present: as the bot writes them, and with an activity
  file that lacks the final line feed.\<close>

definition stored :: bot where
  "stored = initial\<lparr>SONG_FILE := Some (py ''Yesterday - Beatles'' @ [newline]),
     ACTIVITY_FILE := Some (py ''Dance'' @ [newline])\<rparr>"

definition edited :: bot where
  "edited = initial\<lparr>SONG_FILE := Some (py ''Yesterday - Beatles'' @ [newline]),
     ACTIVITY_FILE := Some (py ''Dance'')\<rparr>"

section \<open>The message counter: properties\<close>

lemma track_below:
  "MESSAGE_COUNTER s + 1 < 20 \<Longrightarrow>
   track_messages r u s = s\<lparr>MESSAGE_COUNTER := MESSAGE_COUNTER s + 1\<rparr>"
  by (simp add: track_messages_def Let_def)

lemma track_all_below:
  "MESSAGE_COUNTER s + int (length ms) < 20 \<Longrightarrow>
   track_all ms s = s\<lparr>MESSAGE_COUNTER := MESSAGE_COUNTER s + int (length ms)\<rparr>"
proof (induction ms arbitrary: s)
  case Nil
  then show ?case by simp
next
  case (Cons m ms)
  obtain u r where m: "m = (u, r)" by (cases m)
  from Cons.prems have lt: "MESSAGE_COUNTER s + 1 < 20" by simp
  have "track_all (m # ms) s = track_all ms (s\<lparr>MESSAGE_COUNTER := MESSAGE_COUNTER s + 1\<rparr>)"
    by (simp add: m track_below [OF lt])
  also have "\<dots> = s\<lparr>MESSAGE_COUNTER := MESSAGE_COUNTER s + 1 + int (length ms)\<rparr>"
    using Cons.prems by (subst Cons.IH) simp_all
  finally show ?case by (simp add: add.assoc)
qed

lemma track_all_append:
  "track_all (xs @ ys) s = track_all ys (track_all xs s)"
  by (induction xs arbitrary: s) auto

lemma get_quote_state:
  "MESSAGE_COUNTER (snd (get_quote r s)) = MESSAGE_COUNTER s"
  "outbox (snd (get_quote r s)) = outbox s"
  "SONG_FILE (snd (get_quote r s)) = SONG_FILE s"
  "ACTIVITY_FILE (snd (get_quote r s)) = ACTIVITY_FILE s"
  by (simp_all add: get_quote_def logger_error_def split: sum.splits)

lemma get_quote_text:
  "fst (get_quote r s) = fst (get_quote r s')"
  by (simp add: get_quote_def split: sum.splits)

lemma track_at_threshold:
  "MESSAGE_COUNTER s = 19 \<Longrightarrow>
   MESSAGE_COUNTER (track_messages r u s) = 0 \<and>
   outbox (track_messages r u s) =
     outbox s @ [(chat_id u, Text (py ''Here's a motivational quote for you:'' @ [newline, newline]
        @ fst (get_quote r s)))]"
  by (simp add: track_messages_def Let_def send_message_def split_beta get_quote_state
      get_quote_text [of r "s\<lparr>MESSAGE_COUNTER := 0\<rparr>" s])

text \<open>
  Claim C1. Starting from a counter of 0, after 19 non-command text messages no quote
  has been sent and the counter is 19; the 20th message sends exactly one message, the
  quote, to the chat of that message, and the counter is 0 again.
\<close>

theorem track_messages_every_twentieth:
  assumes "MESSAGE_COUNTER s = 0" and "length ms = 19"
  shows "outbox (track_all ms s) = outbox s \<and> MESSAGE_COUNTER (track_all ms s) = 19
       \<and> MESSAGE_COUNTER (track_all (ms @ [(u, r)]) s) = 0
       \<and> outbox (track_all (ms @ [(u, r)]) s) =
           outbox s @ [(chat_id u, Text (py ''Here's a motivational quote for you:''
             @ [newline, newline] @ fst (get_quote r s)))]"
proof -
  have lt: "MESSAGE_COUNTER s + int (length ms) < 20"
    using assms by simp
  have mid: "track_all ms s = s\<lparr>MESSAGE_COUNTER := 19\<rparr>"
    using track_all_below [OF lt] assms by simp
  have c19: "MESSAGE_COUNTER (s\<lparr>MESSAGE_COUNTER := 19\<rparr>) = 19"
    by simp
  have last: "track_all (ms @ [(u, r)]) s = track_messages r u (s\<lparr>MESSAGE_COUNTER := 19\<rparr>)"
    by (simp add: track_all_append mid)
  show ?thesis
    using track_at_threshold [OF c19, of r u]
    by (simp add: mid last get_quote_text [of r "s\<lparr>MESSAGE_COUNTER := 19\<rparr>" s])
qed

theorem track_messages_every_twentieth_witness:
  "MESSAGE_COUNTER initial = 0 \<and> length (replicate 19 (alice, Raises)) = 19
   \<and> outbox (track_all (replicate 19 (alice, Raises)) initial) = []
   \<and> MESSAGE_COUNTER (track_all (replicate 19 (alice, Raises) @ [(alice, Responds 503 None)]) initial) = 0
   \<and> outbox (track_all (replicate 19 (alice, Raises) @ [(alice, Responds 503 None)]) initial) =
       [(7, Text (py ''Here's a motivational quote for you:'' @ [newline, newline]
          @ py ''Sorry, I couldn't fetch a quote at the moment.''))]"
  using track_messages_every_twentieth [of initial "replicate 19 (alice, Raises)" alice "Responds 503 None"]
  by (simp add: initial_def alice_def get_quote_def get_quote_try_def)

lemma track_messages_range:
  "0 \<le> MESSAGE_COUNTER s \<and> MESSAGE_COUNTER s \<le> 19 \<Longrightarrow>
   0 \<le> MESSAGE_COUNTER (track_messages r u s) \<and> MESSAGE_COUNTER (track_messages r u s) \<le> 19"
  by (simp add: track_messages_def Let_def send_message_def split_beta get_quote_state)

lemma step_counter_other:
  "\<forall>r u. e \<noteq> TrackMessages r u \<Longrightarrow> MESSAGE_COUNTER (step e s) = MESSAGE_COUNTER s"
  by (cases e)
    (simp_all add: start_def countdown_def faq_def quote_def display_lists_def song_command_def
      get_song_name_def get_song_artist_def suggest_activity_def get_activity_def
      auto_post_countdown_def error_handler_def send_message_def logger_error_def
      Let_def split_beta get_quote_state split: option.splits)

lemma step_range:
  "0 \<le> MESSAGE_COUNTER s \<and> MESSAGE_COUNTER s \<le> 19 \<Longrightarrow>
   0 \<le> MESSAGE_COUNTER (step e s) \<and> MESSAGE_COUNTER (step e s) \<le> 19"
proof (cases "\<exists>r u. e = TrackMessages r u")
  case True
  then show "0 \<le> MESSAGE_COUNTER s \<and> MESSAGE_COUNTER s \<le> 19 \<Longrightarrow> ?thesis"
    using track_messages_range by auto
next
  case False
  then show "0 \<le> MESSAGE_COUNTER s \<and> MESSAGE_COUNTER s \<le> 19 \<Longrightarrow> ?thesis"
    using step_counter_other [of e s] by simp
qed

lemma run_range:
  "0 \<le> MESSAGE_COUNTER s \<and> MESSAGE_COUNTER s \<le> 19 \<Longrightarrow>
   0 \<le> MESSAGE_COUNTER (run es s) \<and> MESSAGE_COUNTER (run es s) \<le> 19"
proof (induction es arbitrary: s)
  case Nil
  then show ?case by simp
next
  case (Cons e es)
  show ?case
    using Cons.IH [OF step_range [OF Cons.prems]] by simp
qed

text \<open>
  Claim C10. When the counter starts at 0, then after any sequence of operations of the
  bot, of which only \<open>track_messages\<close> changes the counter, its value lies between 0
  and 19.
\<close>

theorem message_counter_range:
  "MESSAGE_COUNTER s = 0 \<Longrightarrow>
   0 \<le> MESSAGE_COUNTER (run es s) \<and> MESSAGE_COUNTER (run es s) \<le> 19"
  using run_range [of s es] by simp

theorem message_counter_range_witness:
  "MESSAGE_COUNTER initial = 0
   \<and> 0 \<le> MESSAGE_COUNTER (run (replicate 20 (TrackMessages Raises alice)) initial)
   \<and> MESSAGE_COUNTER (run (replicate 20 (TrackMessages Raises alice)) initial) \<le> 19"
  using message_counter_range [of initial "replicate 20 (TrackMessages Raises alice)"]
  by (simp add: initial_def)

section \<open>The quote fetcher: properties\<close>

text \<open>
  Claim C7, as stated, fails: on a response with status 500 \<open>get_quote\<close> returns the
  first fallback text and writes nothing to the log.
\<close>

theorem get_quote_non_200_not_logged:
  "fst (get_quote (Responds 500 None) initial) = py ''Sorry, I couldn't fetch a quote at the moment.''
   \<and> log (snd (get_quote (Responds 500 None) initial)) = []"
  by (simp add: get_quote_def get_quote_try_def initial_def)

lemma getitem_0_JObj:
  "getitem_0 j = Inr (JObj kvs t) \<Longrightarrow> \<exists>xs t'. j = JArr (JObj kvs t # xs) t'"
  by (cases j rule: getitem_0.cases) simp_all

lemma getitem_key_other:
  "\<forall>kvs t. v \<noteq> JObj kvs t \<Longrightarrow> getitem_key k v = Inl TypeError"
  by (cases v) simp_all

lemma get_quote_try_200:
  "get_quote_try (Responds 200 (Some j)) =
     (case getitem_0 j of
        Inl e \<Rightarrow> Inl e
      | Inr first \<Rightarrow>
          (case getitem_key (py ''q'') first of
             Inl e \<Rightarrow> Inl e
           | Inr q \<Rightarrow>
               (case getitem_key (py ''a'') first of
                  Inl e \<Rightarrow> Inl e
                | Inr a \<Rightarrow> Inr (format_value q @ [32, em_dash, 32] @ format_value a))))"
  by (simp add: get_quote_try_def)

lemma get_quote_try_no_first:
  "getitem_0 j = Inl e \<Longrightarrow> \<exists>e. get_quote_try (Responds 200 (Some j)) = Inl e"
  by (simp add: get_quote_try_200)

lemma get_quote_try_no_q:
  "getitem_0 j = Inr first \<Longrightarrow> getitem_key (py ''q'') first = Inl e
     \<Longrightarrow> \<exists>e. get_quote_try (Responds 200 (Some j)) = Inl e"
  by (simp add: get_quote_try_200)

lemma get_quote_try_no_a:
  "getitem_0 j = Inr first \<Longrightarrow> getitem_key (py ''a'') first = Inl e
     \<Longrightarrow> \<exists>e. get_quote_try (Responds 200 (Some j)) = Inl e"
  by (simp add: get_quote_try_200 split: sum.splits)

lemma get_quote_try_malformed:
  assumes "\<forall>kvs t xs t'. j = JArr (JObj kvs t # xs) t' \<longrightarrow>
             map_of kvs (py ''q'') = None \<or> map_of kvs (py ''a'') = None"
  shows "\<exists>e. get_quote_try (Responds 200 (Some j)) = Inl e"
proof (cases "getitem_0 j")
  case (Inl e)
  then show ?thesis by (rule get_quote_try_no_first)
next
  case (Inr first)
  show ?thesis
  proof (cases "\<exists>kvs t. first = JObj kvs t")
    case True
    then obtain kvs t where f: "first = JObj kvs t" by blast
    have "getitem_0 j = Inr (JObj kvs t)"
      using Inr unfolding f .
    then obtain xs t' where j: "j = JArr (JObj kvs t # xs) t'"
      using getitem_0_JObj by blast
    from assms [rule_format, OF j] show ?thesis
    proof
      assume "map_of kvs (py ''q'') = None"
      then have "getitem_key (py ''q'') first = Inl KeyError"
        unfolding f by simp
      with Inr show ?thesis by (rule get_quote_try_no_q)
    next
      assume "map_of kvs (py ''a'') = None"
      then have "getitem_key (py ''a'') first = Inl KeyError"
        unfolding f by simp
      with Inr show ?thesis by (rule get_quote_try_no_a)
    qed
  next
    case False
    then have "\<forall>kvs t. first \<noteq> JObj kvs t" by blast
    then have "getitem_key (py ''q'') first = Inl TypeError"
      by (rule getitem_key_other)
    with Inr show ?thesis by (rule get_quote_try_no_q)
  qed
qed

text \<open>
  Claim C7, amended. On a status other than 200 \<open>get_quote\<close> returns the first fallback
  text and logs nothing. When the request raises, when the body of a 200 response is not
  JSON, and when that body is anything but an array whose first element is an object with
  the keys \<open>q\<close> and \<open>a\<close>, it returns the second fallback text and logs the failure. On
  a 200 response whose body is such an array it returns quote, em dash and author and
  logs nothing. These cases cover every outcome, so no error reaches the caller.
\<close>

theorem get_quote_outcomes:
  "(c \<noteq> 200 \<longrightarrow>
      get_quote (Responds c b) s = (py ''Sorry, I couldn't fetch a quote at the moment.'', s))
   \<and> get_quote Raises s =
       (py ''Sorry, something went wrong while fetching the quote.'',
        s\<lparr>log := log s @ [QuoteFetchError RequestException]\<rparr>)
   \<and> get_quote (Responds 200 None) s =
       (py ''Sorry, something went wrong while fetching the quote.'',
        s\<lparr>log := log s @ [QuoteFetchError JSONDecodeError]\<rparr>)
   \<and> (map_of kvs (py ''q'') = Some q \<and> map_of kvs (py ''a'') = Some a \<longrightarrow>
        get_quote (Responds 200 (Some (JArr (JObj kvs t # xs) t'))) s =
          (format_value q @ [32, em_dash, 32] @ format_value a, s))
   \<and> ((\<forall>kvs t xs t'. j = JArr (JObj kvs t # xs) t' \<longrightarrow>
           map_of kvs (py ''q'') = None \<or> map_of kvs (py ''a'') = None) \<longrightarrow>
        (\<exists>e. get_quote (Responds 200 (Some j)) s =
              (py ''Sorry, something went wrong while fetching the quote.'',
               s\<lparr>log := log s @ [QuoteFetchError e]\<rparr>)))"
proof -
  have "(\<forall>kvs t xs t'. j = JArr (JObj kvs t # xs) t' \<longrightarrow>
           map_of kvs (py ''q'') = None \<or> map_of kvs (py ''a'') = None) \<longrightarrow>
        (\<exists>e. get_quote (Responds 200 (Some j)) s =
              (py ''Sorry, something went wrong while fetching the quote.'',
               s\<lparr>log := log s @ [QuoteFetchError e]\<rparr>))"
  proof
    assume "\<forall>kvs t xs t'. j = JArr (JObj kvs t # xs) t' \<longrightarrow>
           map_of kvs (py ''q'') = None \<or> map_of kvs (py ''a'') = None"
    then obtain e where "get_quote_try (Responds 200 (Some j)) = Inl e"
      using get_quote_try_malformed by blast
    then have "get_quote (Responds 200 (Some j)) s =
              (py ''Sorry, something went wrong while fetching the quote.'',
               s\<lparr>log := log s @ [QuoteFetchError e]\<rparr>)"
      by (simp add: get_quote_def logger_error_def)
    then show "\<exists>e. get_quote (Responds 200 (Some j)) s =
              (py ''Sorry, something went wrong while fetching the quote.'',
               s\<lparr>log := log s @ [QuoteFetchError e]\<rparr>)"
      by blast
  qed
  then show ?thesis
    by (simp add: get_quote_def get_quote_try_def logger_error_def)
qed

theorem get_quote_outcomes_witness:
  "(503::int) \<noteq> 200
   \<and> get_quote (Responds 503 None) initial = (py ''Sorry, I couldn't fetch a quote at the moment.'', initial)
   \<and> map_of [(py ''q'', JStr (py ''Carpe diem'')), (py ''a'', JStr (py ''Horace''))] (py ''q'') = Some (JStr (py ''Carpe diem''))
   \<and> map_of [(py ''q'', JStr (py ''Carpe diem'')), (py ''a'', JStr (py ''Horace''))] (py ''a'') = Some (JStr (py ''Horace''))
   \<and> get_quote (Responds 200 (Some (JArr [JObj [(py ''q'', JStr (py ''Carpe diem'')), (py ''a'', JStr (py ''Horace''))] []] []))) initial
       = (py ''Carpe diem'' @ [32, em_dash, 32] @ py ''Horace'', initial)
   \<and> get_quote (Responds 200 (Some (JArr [] []))) initial =
        (py ''Sorry, something went wrong while fetching the quote.'',
         initial\<lparr>log := [QuoteFetchError IndexError]\<rparr>)
   \<and> get_quote (Responds 200 (Some (JArr [JObj [(py ''q'', JStr (py ''Carpe diem''))] []] []))) initial =
        (py ''Sorry, something went wrong while fetching the quote.'',
         initial\<lparr>log := [QuoteFetchError KeyError]\<rparr>)"
proof -
  have a: "get_quote (Responds 200 (Some (JArr [] []))) initial =
        (py ''Sorry, something went wrong while fetching the quote.'',
         initial\<lparr>log := [QuoteFetchError IndexError]\<rparr>)"
    using get_quote_outcomes [of 503 None initial "[]" "JNull" "JNull" "[]" "[]" "[]" "JArr [] []"]
    by (simp add: get_quote_def get_quote_try_def logger_error_def initial_def)
  have b: "get_quote (Responds 200 (Some (JArr [JObj [(py ''q'', JStr (py ''Carpe diem''))] []] []))) initial =
        (py ''Sorry, something went wrong while fetching the quote.'',
         initial\<lparr>log := [QuoteFetchError KeyError]\<rparr>)"
    using get_quote_outcomes [of 503 None initial "[]" "JNull" "JNull" "[]" "[]" "[]"
        "JArr [JObj [(py ''q'', JStr (py ''Carpe diem''))] []] []"]
    by (simp add: get_quote_def get_quote_try_def logger_error_def initial_def py_def)
  show ?thesis
    using get_quote_outcomes [of 503 None initial
      "[(py ''q'', JStr (py ''Carpe diem'')), (py ''a'', JStr (py ''Horace''))]"
      "JStr (py ''Carpe diem'')" "JStr (py ''Horace'')" "[]" "[]" "[]" JNull] a b
    by (simp add: py_def)
qed

section \<open>The dialogs: properties\<close>

lemma split_lines_line:
  "newline \<notin> set l \<Longrightarrow> split_lines acc (l @ newline # rest) = (acc @ l) # split_lines [] rest"
  by (induction l arbitrary: acc) auto

lemma split_lines_terminated:
  "s \<noteq> [] \<Longrightarrow> last s = newline \<Longrightarrow>
   split_lines acc (s @ t) = split_lines acc s @ split_lines [] t"
proof (induction s arbitrary: acc)
  case Nil
  then show ?case by simp
next
  case (Cons c cs)
  show ?case
  proof (cases "cs = []")
    case True
    with Cons.prems show ?thesis by simp
  next
    case False
    with Cons.prems have "last cs = newline" by simp
    with False Cons.IH show ?thesis by simp
  qed
qed

lemma lines_of_append:
  "s = [] \<or> last s = newline \<Longrightarrow> lines_of (s @ t) = lines_of s @ lines_of t"
  using split_lines_terminated [of s "[]" t] by (cases "s = []") (simp_all add: lines_of_def)

lemma lines_of_line:
  "newline \<notin> set l \<Longrightarrow> lines_of (l @ [newline]) = [l]"
  using split_lines_line [of l "[]" "[]"] by (simp add: lines_of_def)

lemma lines_of_entries:
  "\<forall>l \<in> set ls. newline \<notin> set l \<Longrightarrow>
   lines_of (concat (map (\<lambda>l. l @ [newline]) ls)) = ls"
proof (induction ls)
  case Nil
  then show ?case by (simp add: lines_of_def)
next
  case (Cons l ls)
  have "lines_of ((l @ [newline]) @ concat (map (\<lambda>l. l @ [newline]) ls))
        = lines_of (l @ [newline]) @ lines_of (concat (map (\<lambda>l. l @ [newline]) ls))"
    by (rule lines_of_append) simp
  with Cons show ?case by (simp add: lines_of_line)
qed

lemma submit_song_file:
  "SONG_FILE (submit_song u p s) = Some (content (SONG_FILE s) @ song_entry p @ [newline])"
  by (simp add: submit_song_def get_song_artist_def get_song_name_def song_command_def
      send_message_def Let_def format_optional_def file_append_def content_def song_entry_def
      split: option.splits)

lemma submit_song_other:
  "ACTIVITY_FILE (submit_song u p s) = ACTIVITY_FILE s"
  by (simp add: submit_song_def get_song_artist_def get_song_name_def song_command_def
      send_message_def Let_def)

lemma submit_songs_file:
  "content (SONG_FILE (submit_songs ps s)) =
     content (SONG_FILE s) @ concat (map (\<lambda>(u, p). song_entry p @ [newline]) ps)"
proof (induction ps arbitrary: s)
  case Nil
  then show ?case by simp
next
  case (Cons x ps)
  obtain u p where x: "x = (u, p)" by (cases x)
  have "content (SONG_FILE (submit_song u p s)) = content (SONG_FILE s) @ song_entry p @ [newline]"
    by (simp add: submit_song_file content_def)
  then show ?case
    by (simp add: x Cons.IH)
qed

lemma submit_songs_other:
  "ACTIVITY_FILE (submit_songs ps s) = ACTIVITY_FILE s"
proof (induction ps arbitrary: s)
  case Nil
  then show ?case by simp
next
  case (Cons x ps)
  obtain u p where x: "x = (u, p)" by (cases x)
  show ?case
    by (simp add: x Cons.IH submit_song_other)
qed

lemma py_sep_no_newline: "newline \<notin> set (py '' - '')"
  by (simp add: py_def newline_def)

lemma song_entry_no_newline:
  "newline \<notin> set (fst p) \<Longrightarrow> newline \<notin> set (snd p) \<Longrightarrow> newline \<notin> set (song_entry p)"
  using py_sep_no_newline by (simp add: song_entry_def)

text \<open>
  Claim C2, as stated, fails: a title that contains a line feed adds two lines to the
  file, and neither is \<open><title> - <artist>\<close>.
\<close>

theorem song_title_with_line_feed:
  "lines_of (content (SONG_FILE (submit_songs [(alice, (py ''a'' @ [newline] @ py ''b'', py ''c''))] initial)))
     = [py ''a'', py ''b - c'']
   \<and> lines_of (content (SONG_FILE initial)) = []"
  by (simp add: submit_song_file lines_of_def initial_def content_def song_entry_def py_def newline_def)

lemma submit_activity_file:
  "ACTIVITY_FILE (submit_activity u a s) = Some (content (ACTIVITY_FILE s) @ a @ [newline])"
  by (simp add: submit_activity_def get_activity_def suggest_activity_def
      send_message_def Let_def file_append_def content_def split: option.splits)

lemma submit_activities_file:
  "content (ACTIVITY_FILE (submit_activities ps s)) =
     content (ACTIVITY_FILE s) @ concat (map (\<lambda>(u, a). a @ [newline]) ps)"
proof (induction ps arbitrary: s)
  case Nil
  then show ?case by simp
next
  case (Cons x ps)
  obtain u a where x: "x = (u, a)" by (cases x)
  have "content (ACTIVITY_FILE (submit_activity u a s)) = content (ACTIVITY_FILE s) @ a @ [newline]"
    by (simp add: submit_activity_file content_def)
  then show ?case
    by (simp add: x Cons.IH)
qed

text \<open>
  Claim C3, amended. After any sequence of submissions through the activity dialog the
  text of the activity file is its prior text followed by each submitted text and a line
  feed, in submission order. When the prior text is empty or ends in a line feed and no
  submitted text contains a line feed, the file has exactly one additional line per
  submission, the submitted text itself, in submission order, after its prior lines.
\<close>

theorem activity_dialog_appends:
  "content (ACTIVITY_FILE (submit_activities ps s)) =
     content (ACTIVITY_FILE s) @ concat (map (\<lambda>(u, a). a @ [newline]) ps)
   \<and> ((content (ACTIVITY_FILE s) = [] \<or> last (content (ACTIVITY_FILE s)) = newline)
       \<and> (\<forall>(u, a) \<in> set ps. newline \<notin> set a)
      \<longrightarrow> lines_of (content (ACTIVITY_FILE (submit_activities ps s))) =
            lines_of (content (ACTIVITY_FILE s)) @ map snd ps)"
proof -
  have eq: "concat (map (\<lambda>(u, a). a @ [newline]) ps) = concat (map (\<lambda>l. l @ [newline]) (map snd ps))"
    by (simp add: comp_def case_prod_unfold)
  {
    assume ended: "content (ACTIVITY_FILE s) = [] \<or> last (content (ACTIVITY_FILE s)) = newline"
      and clean: "\<forall>(u, a) \<in> set ps. newline \<notin> set a"
    have "\<forall>l \<in> set (map snd ps). newline \<notin> set l"
      using clean by auto
    then have "lines_of (concat (map (\<lambda>l. l @ [newline]) (map snd ps))) = map snd ps"
      by (rule lines_of_entries)
    then have "lines_of (content (ACTIVITY_FILE (submit_activities ps s))) =
            lines_of (content (ACTIVITY_FILE s)) @ map snd ps"
      using lines_of_append [OF ended] by (simp add: submit_activities_file eq)
  }
  then show ?thesis
    using submit_activities_file by blast
qed

text \<open>
  Claim C3, as stated, fails: an activity that contains a line feed adds two lines to
  the file.
\<close>

theorem activity_with_line_feed:
  "lines_of (content (ACTIVITY_FILE (submit_activities [(alice, py ''a'' @ [newline] @ py ''b'')] initial)))
     = [py ''a'', py ''b'']
   \<and> lines_of (content (ACTIVITY_FILE initial)) = []"
  by (simp add: submit_activity_file lines_of_def initial_def content_def py_def newline_def)

theorem activity_dialog_appends_witness:
  "content (ACTIVITY_FILE initial) = []
   \<and> newline \<notin> set (py ''Dance'') \<and> newline \<notin> set (py ''Karaoke'')
   \<and> lines_of (content (ACTIVITY_FILE (submit_activities [(alice, py ''Dance''), (alice, py ''Karaoke'')] initial)))
       = [py ''Dance'', py ''Karaoke'']"
  using activity_dialog_appends [of "[(alice, py ''Dance''), (alice, py ''Karaoke'')]" initial]
  by (simp add: initial_def content_def lines_of_def py_def newline_def)

section \<open>The list display: properties\<close>

lemma universal_newlines_id:
  "13 \<notin> set c \<Longrightarrow> universal_newlines c = c"
  by (induction c rule: universal_newlines.induct) auto

lemma dropWhile_id:
  "c \<noteq> [] \<Longrightarrow> \<not> P (hd c) \<Longrightarrow> dropWhile P c = c"
  by (cases c) auto

lemma strip_id:
  "c \<noteq> [] \<Longrightarrow> \<not> py_isspace (hd c) \<Longrightarrow> \<not> py_isspace (last c) \<Longrightarrow> strip c = c"
  by (simp add: strip_def dropWhile_id hd_rev)

lemma outbox_display_lists:
  "outbox (display_lists u s) = outbox s @ [(chat_id u, Text
     (py ''Song List:'' @ [newline]
      @ (case SONG_FILE s of None \<Rightarrow> py ''No songs available.''
         | Some c \<Rightarrow> if strip (universal_newlines c) = [] then py ''No songs available.''
                      else strip (universal_newlines c))
      @ [newline, newline] @ py ''-----'' @ [newline, newline] @ py ''Activity List:'' @ [newline]
      @ (case ACTIVITY_FILE s of None \<Rightarrow> py ''No activities available.''
         | Some c \<Rightarrow> if strip (universal_newlines c) = [] then py ''No activities available.''
                      else strip (universal_newlines c))))]"
  by (simp add: display_lists_def send_message_def Let_def split: option.splits)

text \<open>
  Claim C4, amended. \<open>display_lists\<close> sends one message: \<open>Song List:\<close>, a line feed,
  the song part, the separator (two line feeds, five hyphens, two line feeds),
  \<open>Activity List:\<close>, a line feed, the activity part. The part of a file that is missing,
  empty or all whitespace is the fixed text \<open>No songs available.\<close> or
  \<open>No activities available.\<close>; otherwise it is the text read from the file with leading
  and trailing whitespace stripped, which is the file's text itself when that text has
  no carriage return and neither starts nor ends with whitespace.
\<close>

theorem display_lists_message:
  "\<exists>a b. outbox (display_lists u s) = outbox s @ [(chat_id u, Text
       (py ''Song List:'' @ [newline] @ a @ [newline, newline] @ py ''-----'' @ [newline, newline]
          @ py ''Activity List:'' @ [newline] @ b))]
     \<and> (SONG_FILE s = None \<or> (\<exists>c. SONG_FILE s = Some c \<and> strip (universal_newlines c) = [])
          \<longrightarrow> a = py ''No songs available.'')
     \<and> (\<forall>c. SONG_FILE s = Some c \<and> strip (universal_newlines c) \<noteq> []
          \<longrightarrow> a = strip (universal_newlines c))
     \<and> (\<forall>c. SONG_FILE s = Some c \<and> c \<noteq> [] \<and> 13 \<notin> set c \<and> \<not> py_isspace (hd c)
              \<and> \<not> py_isspace (last c) \<longrightarrow> a = c)
     \<and> (ACTIVITY_FILE s = None \<or> (\<exists>c. ACTIVITY_FILE s = Some c \<and> strip (universal_newlines c) = [])
          \<longrightarrow> b = py ''No activities available.'')
     \<and> (\<forall>c. ACTIVITY_FILE s = Some c \<and> strip (universal_newlines c) \<noteq> []
          \<longrightarrow> b = strip (universal_newlines c))
     \<and> (\<forall>c. ACTIVITY_FILE s = Some c \<and> c \<noteq> [] \<and> 13 \<notin> set c \<and> \<not> py_isspace (hd c)
              \<and> \<not> py_isspace (last c) \<longrightarrow> b = c)"
proof -
  define a where "a = (case SONG_FILE s of None \<Rightarrow> py ''No songs available.''
         | Some c \<Rightarrow> if strip (universal_newlines c) = [] then py ''No songs available.''
                      else strip (universal_newlines c))"
  define b where "b = (case ACTIVITY_FILE s of None \<Rightarrow> py ''No activities available.''
         | Some c \<Rightarrow> if strip (universal_newlines c) = [] then py ''No activities available.''
                      else strip (universal_newlines c))"
  have sent: "outbox (display_lists u s) = outbox s @ [(chat_id u, Text
       (py ''Song List:'' @ [newline] @ a @ [newline, newline] @ py ''-----'' @ [newline, newline]
          @ py ''Activity List:'' @ [newline] @ b))]"
    unfolding a_def b_def by (rule outbox_display_lists)
  have a1: "SONG_FILE s = None \<or> (\<exists>c. SONG_FILE s = Some c \<and> strip (universal_newlines c) = [])
          \<longrightarrow> a = py ''No songs available.''"
    by (auto simp: a_def)
  have a2: "\<forall>c. SONG_FILE s = Some c \<and> strip (universal_newlines c) \<noteq> []
          \<longrightarrow> a = strip (universal_newlines c)"
    by (auto simp: a_def)
  have a3: "\<forall>c. SONG_FILE s = Some c \<and> c \<noteq> [] \<and> 13 \<notin> set c \<and> \<not> py_isspace (hd c)
              \<and> \<not> py_isspace (last c) \<longrightarrow> a = c"
    by (auto simp: a_def universal_newlines_id strip_id)
  have b1: "ACTIVITY_FILE s = None \<or> (\<exists>c. ACTIVITY_FILE s = Some c \<and> strip (universal_newlines c) = [])
          \<longrightarrow> b = py ''No activities available.''"
    by (auto simp: b_def)
  have b2: "\<forall>c. ACTIVITY_FILE s = Some c \<and> strip (universal_newlines c) \<noteq> []
          \<longrightarrow> b = strip (universal_newlines c)"
    by (auto simp: b_def)
  have b3: "\<forall>c. ACTIVITY_FILE s = Some c \<and> c \<noteq> [] \<and> 13 \<notin> set c \<and> \<not> py_isspace (hd c)
              \<and> \<not> py_isspace (last c) \<longrightarrow> b = c"
    by (auto simp: b_def universal_newlines_id strip_id)
  from sent a1 a2 a3 b1 b2 b3 show ?thesis by blast
qed

text \<open>
  Claim C4, as stated, fails: after the activity dialog has written \<open>Dance\<close> and a line
  feed, the message of \<open>display_lists\<close> ends with \<open>Dance\<close> and does not contain the
  text of the file.
\<close>

theorem display_lists_strips_line_feed:
  "ACTIVITY_FILE (submit_activities [(alice, py ''Dance'')] initial) = Some (py ''Dance'' @ [newline])
   \<and> last (outbox (display_lists alice (submit_activities [(alice, py ''Dance'')] initial))) =
       (7, Text (py ''Song List:'' @ [newline] @ py ''No songs available.'' @ [newline, newline]
          @ py ''-----'' @ [newline, newline] @ py ''Activity List:'' @ [newline] @ py ''Dance''))
   \<and> \<not> sublist (py ''Dance'' @ [newline])
        (py ''Song List:'' @ [newline] @ py ''No songs available.'' @ [newline, newline]
          @ py ''-----'' @ [newline, newline] @ py ''Activity List:'' @ [newline] @ py ''Dance'')"
proof -
  have "\<not> sublist (py ''Dance'' @ [newline])
        (py ''Song List:'' @ [newline] @ py ''No songs available.'' @ [newline, newline]
          @ py ''-----'' @ [newline, newline] @ py ''Activity List:'' @ [newline] @ py ''Dance'')"
    by (simp add: py_def newline_def sublist_Cons_right)
  then show ?thesis
    by (simp add: outbox_display_lists submit_activity_def get_activity_def suggest_activity_def
      send_message_def Let_def file_append_def initial_def alice_def strip_def py_isspace_def
      py_def newline_def)
qed

theorem display_lists_message_witness:
  "SONG_FILE initial = None \<and> ACTIVITY_FILE initial = None
   \<and> outbox (display_lists alice initial) =
       [(7, Text (py ''Song List:'' @ [newline] @ py ''No songs available.'' @ [newline, newline]
          @ py ''-----'' @ [newline, newline] @ py ''Activity List:'' @ [newline]
          @ py ''No activities available.''))]
   \<and> SONG_FILE edited = Some (py ''Yesterday - Beatles'' @ [newline])
   \<and> strip (universal_newlines (py ''Yesterday - Beatles'' @ [newline])) = py ''Yesterday - Beatles''
   \<and> ACTIVITY_FILE edited = Some (py ''Dance'') \<and> 13 \<notin> set (py ''Dance'')
   \<and> \<not> py_isspace (hd (py ''Dance'')) \<and> \<not> py_isspace (last (py ''Dance''))
   \<and> outbox (display_lists alice edited) =
       [(7, Text (py ''Song List:'' @ [newline] @ py ''Yesterday - Beatles'' @ [newline, newline]
          @ py ''-----'' @ [newline, newline] @ py ''Activity List:'' @ [newline] @ py ''Dance''))]"
proof -
  have s: "strip (universal_newlines (py ''Yesterday - Beatles'' @ [newline])) = py ''Yesterday - Beatles''"
    by (simp add: strip_def py_isspace_def py_def newline_def)
  have d: "13 \<notin> set (py ''Dance'') \<and> \<not> py_isspace (hd (py ''Dance'')) \<and> \<not> py_isspace (last (py ''Dance''))"
    by (simp add: py_isspace_def py_def)
  have e: "SONG_FILE edited = Some (py ''Yesterday - Beatles'' @ [newline])"
     "ACTIVITY_FILE edited = Some (py ''Dance'')" "outbox edited = []"
    by (simp_all add: edited_def initial_def)
  have i: "SONG_FILE initial = None" "ACTIVITY_FILE initial = None" "outbox initial = []"
    by (simp_all add: initial_def)
  have c: "chat_id alice = 7" by (simp add: alice_def)
  have n: "py ''Yesterday - Beatles'' \<noteq> []" "py ''Dance'' \<noteq> []" by (simp_all add: py_def)
  show ?thesis
    using display_lists_message [of alice initial] display_lists_message [of alice edited]
    by (auto simp add: s d e i c n)
qed

section \<open>The files are append-only\<close>

lemma quote_files:
  "SONG_FILE (quote r u s) = SONG_FILE s" "ACTIVITY_FILE (quote r u s) = ACTIVITY_FILE s"
  by (simp_all add: quote_def send_message_def split_beta get_quote_def logger_error_def
      split: sum.splits)

lemma track_messages_files:
  "SONG_FILE (track_messages r u s) = SONG_FILE s"
  "ACTIVITY_FILE (track_messages r u s) = ACTIVITY_FILE s"
  by (simp_all add: track_messages_def send_message_def split_beta Let_def get_quote_def
      logger_error_def split: sum.splits)

lemma auto_post_countdown_files:
  "SONG_FILE (auto_post_countdown today now s) = SONG_FILE s"
  "ACTIVITY_FILE (auto_post_countdown today now s) = ACTIVITY_FILE s"
  by (simp_all add: auto_post_countdown_def send_message_def split_beta Let_def)

lemma other_handlers_files:
  "SONG_FILE (start u s) = SONG_FILE s" "ACTIVITY_FILE (start u s) = ACTIVITY_FILE s"
  "SONG_FILE (countdown today u s) = SONG_FILE s" "ACTIVITY_FILE (countdown today u s) = ACTIVITY_FILE s"
  "SONG_FILE (faq u s) = SONG_FILE s" "ACTIVITY_FILE (faq u s) = ACTIVITY_FILE s"
  "SONG_FILE (display_lists u s) = SONG_FILE s" "ACTIVITY_FILE (display_lists u s) = ACTIVITY_FILE s"
  "SONG_FILE (snd (song_command u s)) = SONG_FILE s" "ACTIVITY_FILE (snd (song_command u s)) = ACTIVITY_FILE s"
  "SONG_FILE (snd (get_song_name u s)) = SONG_FILE s" "ACTIVITY_FILE (snd (get_song_name u s)) = ACTIVITY_FILE s"
  "SONG_FILE (snd (suggest_activity u s)) = SONG_FILE s" "ACTIVITY_FILE (snd (suggest_activity u s)) = ACTIVITY_FILE s"
  "SONG_FILE (error_handler c s) = SONG_FILE s" "ACTIVITY_FILE (error_handler c s) = ACTIVITY_FILE s"
  by (simp_all add: start_def countdown_def faq_def display_lists_def song_command_def
      get_song_name_def suggest_activity_def error_handler_def send_message_def logger_error_def
      split_beta Let_def split: option.splits)

lemma get_song_artist_files:
  "SONG_FILE (snd (get_song_artist u s)) =
     Some (content (SONG_FILE s) @ format_optional (user_data s (user_id u) (py ''song_name''))
            @ py '' - '' @ message_text u @ [newline])"
  "ACTIVITY_FILE (snd (get_song_artist u s)) = ACTIVITY_FILE s"
  by (simp_all add: get_song_artist_def send_message_def Let_def file_append_def content_def
      split: option.splits)

lemma get_activity_files:
  "ACTIVITY_FILE (snd (get_activity u s)) = Some (content (ACTIVITY_FILE s) @ message_text u @ [newline])"
  "SONG_FILE (snd (get_activity u s)) = SONG_FILE s"
  by (simp_all add: get_activity_def send_message_def Let_def file_append_def content_def
      split: option.splits)

lemmas handler_files = quote_files track_messages_files auto_post_countdown_files
  other_handlers_files get_song_artist_files get_activity_files

lemma step_song_file:
  "\<exists>t. content (SONG_FILE (step e s)) = content (SONG_FILE s) @ t
      \<and> (t = [] \<or> last t = newline)
      \<and> (SONG_FILE s \<noteq> None \<longrightarrow> SONG_FILE (step e s) \<noteq> None)"
proof (cases "\<exists>u. e = GetSongArtist u")
  case True
  then obtain u where e: "e = GetSongArtist u" by blast
  let ?t = "format_optional (user_data s (user_id u) (py ''song_name'')) @ py '' - ''
             @ message_text u @ [newline]"
  have "content (SONG_FILE (step e s)) = content (SONG_FILE s) @ ?t"
    by (simp add: e get_song_artist_files content_def)
  moreover have "last ?t = newline" by simp
  moreover have "SONG_FILE (step e s) \<noteq> None"
    by (simp add: e get_song_artist_files)
  ultimately show ?thesis by blast
next
  case False
  then have "SONG_FILE (step e s) = SONG_FILE s"
    by (cases e) (simp_all add: handler_files)
  then show ?thesis by simp
qed

lemma step_activity_file:
  "\<exists>t. content (ACTIVITY_FILE (step e s)) = content (ACTIVITY_FILE s) @ t
      \<and> (t = [] \<or> last t = newline)
      \<and> (ACTIVITY_FILE s \<noteq> None \<longrightarrow> ACTIVITY_FILE (step e s) \<noteq> None)"
proof (cases "\<exists>u. e = GetActivity u")
  case True
  then obtain u where e: "e = GetActivity u" by blast
  let ?t = "message_text u @ [newline]"
  have "content (ACTIVITY_FILE (step e s)) = content (ACTIVITY_FILE s) @ ?t"
    by (simp add: e get_activity_files content_def)
  moreover have "last ?t = newline" by simp
  moreover have "ACTIVITY_FILE (step e s) \<noteq> None"
    by (simp add: e get_activity_files)
  ultimately show ?thesis by blast
next
  case False
  then have "ACTIVITY_FILE (step e s) = ACTIVITY_FILE s"
    by (cases e) (simp_all add: handler_files)
  then show ?thesis by simp
qed

lemma ended_append:
  "t = [] \<or> last t = newline \<Longrightarrow> t' = [] \<or> last t' = newline \<Longrightarrow>
   t @ t' = [] \<or> last (t @ t') = newline"
  by (cases "t' = []") auto

lemma run_song_file:
  "\<exists>t. content (SONG_FILE (run es s)) = content (SONG_FILE s) @ t
      \<and> (t = [] \<or> last t = newline)
      \<and> (SONG_FILE s \<noteq> None \<longrightarrow> SONG_FILE (run es s) \<noteq> None)"
proof (induction es arbitrary: s)
  case Nil
  then show ?case by simp
next
  case (Cons e es)
  obtain t where t: "content (SONG_FILE (step e s)) = content (SONG_FILE s) @ t"
      "t = [] \<or> last t = newline" "SONG_FILE s \<noteq> None \<longrightarrow> SONG_FILE (step e s) \<noteq> None"
    using step_song_file by blast
  obtain t' where t': "content (SONG_FILE (run es (step e s))) = content (SONG_FILE (step e s)) @ t'"
      "t' = [] \<or> last t' = newline"
      "SONG_FILE (step e s) \<noteq> None \<longrightarrow> SONG_FILE (run es (step e s)) \<noteq> None"
    using Cons.IH by blast
  have "content (SONG_FILE (run (e # es) s)) = content (SONG_FILE s) @ (t @ t')"
    using t(1) t'(1) by simp
  moreover have "t @ t' = [] \<or> last (t @ t') = newline"
    using t(2) t'(2) by (rule ended_append)
  moreover have "SONG_FILE s \<noteq> None \<longrightarrow> SONG_FILE (run (e # es) s) \<noteq> None"
    using t(3) t'(3) by simp
  ultimately show ?case by blast
qed

lemma run_activity_file:
  "\<exists>t. content (ACTIVITY_FILE (run es s)) = content (ACTIVITY_FILE s) @ t
      \<and> (t = [] \<or> last t = newline)
      \<and> (ACTIVITY_FILE s \<noteq> None \<longrightarrow> ACTIVITY_FILE (run es s) \<noteq> None)"
proof (induction es arbitrary: s)
  case Nil
  then show ?case by simp
next
  case (Cons e es)
  obtain t where t: "content (ACTIVITY_FILE (step e s)) = content (ACTIVITY_FILE s) @ t"
      "t = [] \<or> last t = newline" "ACTIVITY_FILE s \<noteq> None \<longrightarrow> ACTIVITY_FILE (step e s) \<noteq> None"
    using step_activity_file by blast
  obtain t' where t': "content (ACTIVITY_FILE (run es (step e s))) = content (ACTIVITY_FILE (step e s)) @ t'"
      "t' = [] \<or> last t' = newline"
      "ACTIVITY_FILE (step e s) \<noteq> None \<longrightarrow> ACTIVITY_FILE (run es (step e s)) \<noteq> None"
    using Cons.IH by blast
  have "content (ACTIVITY_FILE (run (e # es) s)) = content (ACTIVITY_FILE s) @ (t @ t')"
    using t(1) t'(1) by simp
  moreover have "t @ t' = [] \<or> last (t @ t') = newline"
    using t(2) t'(2) by (rule ended_append)
  moreover have "ACTIVITY_FILE s \<noteq> None \<longrightarrow> ACTIVITY_FILE (run (e # es) s) \<noteq> None"
    using t(3) t'(3) by simp
  ultimately show ?case by blast
qed

lemma grown_file:
  assumes "g = f @ t" and "t = [] \<or> last t = newline"
  shows "prefix f g
     \<and> (f = [] \<or> last f = newline \<longrightarrow>
          (g = [] \<or> last g = newline) \<and> prefix (lines_of f) (lines_of g))"
proof -
  have "prefix f g" using assms(1) by simp
  moreover {
    assume ended: "f = [] \<or> last f = newline"
    have "g = [] \<or> last g = newline"
      unfolding assms(1) using ended assms(2) by (rule ended_append)
    moreover have "lines_of g = lines_of f @ lines_of t"
      unfolding assms(1) using ended by (rule lines_of_append)
    ultimately have "(g = [] \<or> last g = newline) \<and> prefix (lines_of f) (lines_of g)"
      by simp
  }
  ultimately show ?thesis by blast
qed

text \<open>
  Claim C8. Over every sequence of operations of the bot each of the two files is
  append-only: a file that exists keeps existing and its prior text stays a prefix of its
  text. When the prior text is empty or ends in a line feed, the same holds afterwards
  and the prior lines stay a prefix of the lines of the file.
\<close>

theorem files_append_only:
  "(SONG_FILE s \<noteq> None \<longrightarrow> SONG_FILE (run es s) \<noteq> None)
   \<and> prefix (content (SONG_FILE s)) (content (SONG_FILE (run es s)))
   \<and> (content (SONG_FILE s) = [] \<or> last (content (SONG_FILE s)) = newline \<longrightarrow>
        (content (SONG_FILE (run es s)) = [] \<or> last (content (SONG_FILE (run es s))) = newline)
        \<and> prefix (lines_of (content (SONG_FILE s))) (lines_of (content (SONG_FILE (run es s)))))
   \<and> (ACTIVITY_FILE s \<noteq> None \<longrightarrow> ACTIVITY_FILE (run es s) \<noteq> None)
   \<and> prefix (content (ACTIVITY_FILE s)) (content (ACTIVITY_FILE (run es s)))
   \<and> (content (ACTIVITY_FILE s) = [] \<or> last (content (ACTIVITY_FILE s)) = newline \<longrightarrow>
        (content (ACTIVITY_FILE (run es s)) = [] \<or> last (content (ACTIVITY_FILE (run es s))) = newline)
        \<and> prefix (lines_of (content (ACTIVITY_FILE s))) (lines_of (content (ACTIVITY_FILE (run es s)))))"
proof -
  obtain t where t: "content (SONG_FILE (run es s)) = content (SONG_FILE s) @ t"
      "t = [] \<or> last t = newline" "SONG_FILE s \<noteq> None \<longrightarrow> SONG_FILE (run es s) \<noteq> None"
    using run_song_file by blast
  obtain t' where t': "content (ACTIVITY_FILE (run es s)) = content (ACTIVITY_FILE s) @ t'"
      "t' = [] \<or> last t' = newline" "ACTIVITY_FILE s \<noteq> None \<longrightarrow> ACTIVITY_FILE (run es s) \<noteq> None"
    using run_activity_file by blast
  show ?thesis
    using grown_file [OF t(1) t(2)] grown_file [OF t'(1) t'(2)] t(3) t'(3) by blast
qed

theorem files_append_only_witness:
  "SONG_FILE stored \<noteq> None \<and> last (content (SONG_FILE stored)) = newline
   \<and> ACTIVITY_FILE stored \<noteq> None \<and> last (content (ACTIVITY_FILE stored)) = newline
   \<and> prefix (lines_of (content (SONG_FILE stored)))
        (lines_of (content (SONG_FILE (run [GetSongArtist alice, DisplayLists alice, GetActivity alice] stored))))
   \<and> prefix (lines_of (content (ACTIVITY_FILE stored)))
        (lines_of (content (ACTIVITY_FILE (run [GetSongArtist alice, DisplayLists alice, GetActivity alice] stored))))"
  using files_append_only [of stored "[GetSongArtist alice, DisplayLists alice, GetActivity alice]"]
  by (simp add: stored_def initial_def content_def)

section \<open>The countdown: properties\<close>

lemma mod_div_swap:
  "0 < b \<Longrightarrow> 0 \<le> c \<Longrightarrow> ((n::int) mod (b * c)) div b = (n div b) mod c"
  by (simp add: zmod_zmult2_eq)

lemma day_us: "(86400000000::int) = 1000000 * 86400"
  by simp

lemma timedelta_of_total:
  fixes d s us :: int
  defines "n \<equiv> (d * 86400 + s) * 1000000 + us"
  shows "days (timedelta_of d s us) = n div 86400000000"
    and "seconds (timedelta_of d s us) = (n mod 86400000000) div 1000000"
proof -
  have a: "n div 1000000 = d * 86400 + (s + us div 1000000)"
    unfolding n_def by simp
  have b: "n div 86400000000 = (n div 1000000) div 86400"
    unfolding day_us by (rule zdiv_zmult2_eq) simp
  have c: "(n mod 86400000000) div 1000000 = (n div 1000000) mod 86400"
    unfolding day_us by (rule mod_div_swap) simp_all
  show "days (timedelta_of d s us) = n div 86400000000"
    unfolding b a by (simp add: timedelta_of_def Let_def)
  show "seconds (timedelta_of d s us) = (n mod 86400000000) div 1000000"
    unfolding c a by (simp add: timedelta_of_def Let_def)
qed

lemma datetime_sub_total:
  "days (datetime_sub WEDDING_DATE today) = remaining_us today div 86400000000"
  "seconds (datetime_sub WEDDING_DATE today) = (remaining_us today mod 86400000000) div 1000000"
  unfolding datetime_sub_def Let_def remaining_us_def
  by (rule timedelta_of_total)+

lemma toordinal_WEDDING_DATE: "toordinal WEDDING_DATE = 739962"
  by (simp add: toordinal_def ymd2ord_def days_before_year_def days_before_month_def
      DAYS_BEFORE_MONTH_def is_leap_def WEDDING_DATE_def)

lemma days_before_year_linear:
  "2027 \<le> (z::int) \<Longrightarrow> z < 4 * a + 4 \<Longrightarrow> 100 * b \<le> z \<Longrightarrow> z < 400 * c + 400 \<Longrightarrow>
   739981 \<le> z * 365 + a - b + c"
  by linarith

lemma days_before_year_bound:
  assumes "2026 \<le> (z::int)"
  shows "739981 \<le> z * 365 + z div 4 - z div 100 + z div 400"
proof -
  from assms consider "z = 2026" | "2027 \<le> z" by linarith
  then show ?thesis
  proof cases
    case 1
    then show ?thesis by simp
  next
    case 2
    have a: "z < 4 * (z div 4) + 4"
      using pos_mod_bound [of 4 z] mult_div_mod_eq [of 4 z] by linarith
    have b: "100 * (z div 100) \<le> z"
      using pos_mod_sign [of 100 z] mult_div_mod_eq [of 100 z] by linarith
    have c: "z < 400 * (z div 400) + 400"
      using pos_mod_bound [of 400 z] mult_div_mod_eq [of 400 z] by linarith
    from 2 a b c show ?thesis by (rule days_before_year_linear)
  qed
qed

lemma days_before_year_later: "2027 \<le> y \<Longrightarrow> 739981 \<le> days_before_year y"
  unfolding days_before_year_def Let_def by (rule days_before_year_bound) simp

lemma days_before_month_nonneg:
  assumes "1 \<le> m" "m \<le> 12"
  shows "0 \<le> days_before_month y m"
proof -
  from assms have "m = 1 \<or> m = 2 \<or> m = 3 \<or> m = 4 \<or> m = 5 \<or> m = 6 \<or> m = 7 \<or> m = 8
      \<or> m = 9 \<or> m = 10 \<or> m = 11 \<or> m = 12"
    by arith
  then show ?thesis
    by (auto simp: days_before_month_def DAYS_BEFORE_MONTH_def)
qed

lemma days_before_december_2026: "days_before_year 2026 + days_before_month 2026 12 = 739950"
  by (simp add: days_before_year_def days_before_month_def DAYS_BEFORE_MONTH_def is_leap_def)

lemma toordinal_after:
  assumes v: "valid_datetime today" and l: "datetime_less WEDDING_DATE today"
  shows "739962 < toordinal today
     \<or> (toordinal today = 739962 \<and> (0 < hour today \<or> 0 < minute today \<or> 0 < second today
          \<or> 0 < microsecond today))"
proof -
  from v have m: "1 \<le> month today" "month today \<le> 12" and d: "1 \<le> day today"
    and y: "1 \<le> year today"
    by (simp_all add: valid_datetime_def)
  from l have "2026 \<le> year today"
    by (auto simp: datetime_less_def WEDDING_DATE_def)
  then consider (later) "2027 \<le> year today" | (same) "year today = 2026" by arith
  then show ?thesis
  proof cases
    case later
    have "739981 + 0 + 1 \<le> toordinal today"
      unfolding toordinal_def ymd2ord_def
      using days_before_year_later [OF later] days_before_month_nonneg [OF m, of "year today"] d
      by linarith
    then show ?thesis by simp
  next
    case same
    with l m have mon: "month today = 12"
      by (auto simp: datetime_less_def WEDDING_DATE_def)
    have ord: "toordinal today = 739950 + day today"
      using days_before_december_2026 by (simp add: toordinal_def ymd2ord_def same mon)
    from l same mon have "12 < day today
        \<or> (day today = 12 \<and> (0 < hour today \<or> 0 < minute today \<or> 0 < second today
          \<or> 0 < microsecond today))"
      by (auto simp: datetime_less_def WEDDING_DATE_def)
    with ord show ?thesis by auto
  qed
qed

lemma remaining_us_after:
  assumes v: "valid_datetime today" and l: "datetime_less WEDDING_DATE today"
  shows "remaining_us today < 0"
proof -
  define secs where "secs = second today + minute today * 60 + hour today * 3600"
  from v have f: "0 \<le> hour today" "0 \<le> minute today" "0 \<le> second today"
      "0 \<le> microsecond today"
    by (simp_all add: valid_datetime_def)
  have r: "remaining_us today = ((739962 - toordinal today) * 86400 - secs) * 1000000 - microsecond today"
    unfolding remaining_us_def toordinal_WEDDING_DATE secs_def by (simp add: WEDDING_DATE_def)
  have s0: "0 \<le> secs" using f by (simp add: secs_def)
  from toordinal_after [OF v l] show ?thesis
  proof
    assume "739962 < toordinal today"
    then have "739962 - toordinal today \<le> - 1" by simp
    then have "(739962 - toordinal today) * 86400 \<le> - 1 * 86400"
      by (rule mult_right_mono) simp
    then have "(739962 - toordinal today) * 86400 - secs \<le> - 1"
      using s0 by simp
    then have "((739962 - toordinal today) * 86400 - secs) * 1000000 \<le> - 1 * 1000000"
      by (rule mult_right_mono) simp
    with f(4) show ?thesis unfolding r by linarith
  next
    assume a: "toordinal today = 739962 \<and> (0 < hour today \<or> 0 < minute today \<or> 0 < second today
          \<or> 0 < microsecond today)"
    then have "0 < secs \<or> 0 < microsecond today"
      using f by (auto simp: secs_def)
    with a s0 f(4) show ?thesis unfolding r by auto
  qed
qed

lemma seconds_range:
  "0 \<le> seconds (timedelta_of d s us) \<and> seconds (timedelta_of d s us) < 86400"
  by (simp add: timedelta_of_def Let_def)

lemma hours_minutes_range:
  assumes "0 \<le> (s::int)" "s < 86400"
  shows "0 \<le> s div 3600 \<and> s div 3600 \<le> 23 \<and> 0 \<le> s mod 3600 div 60 \<and> s mod 3600 div 60 \<le> 59"
proof -
  have "s div 3600 < 24"
    using assms(2) by (simp add: div_less_iff_less_mult)
  moreover have "s mod 3600 div 60 < 60"
    by (simp add: div_less_iff_less_mult)
  moreover have "0 \<le> s div 3600" using assms(1) by simp
  moreover have "0 \<le> s mod 3600 div 60" by simp
  ultimately show ?thesis by simp
qed

lemma calculate_days_until_eq:
  "calculate_days_until today =
     (days (datetime_sub WEDDING_DATE today),
      countdown_text (days (datetime_sub WEDDING_DATE today))
        (seconds (datetime_sub WEDDING_DATE today) div 3600)
        (seconds (datetime_sub WEDDING_DATE today) mod 3600 div 60))"
  by (simp add: calculate_days_until_def Let_def)

text \<open>
  Claim C6. For every \<open>today\<close>, \<open>calculate_days_until\<close> returns the days of the
  difference to 2026-12-12 and a message with these days, the hours (leftover seconds
  \<open>div 3600\<close>) and the minutes (leftover seconds \<open>mod 3600 div 60\<close>); the days are the
  remaining time divided by a day, rounded down, and the leftover seconds are the rest of
  that division in whole seconds. For 2026-12-02 00:00 the message reports 10 days,
  0 hours, and 0 minutes.
\<close>

theorem calculate_days_until_truncates:
  "calculate_days_until today =
     (days (datetime_sub WEDDING_DATE today),
      countdown_text (days (datetime_sub WEDDING_DATE today))
        (seconds (datetime_sub WEDDING_DATE today) div 3600)
        (seconds (datetime_sub WEDDING_DATE today) mod 3600 div 60))
   \<and> days (datetime_sub WEDDING_DATE today) = remaining_us today div 86400000000
   \<and> seconds (datetime_sub WEDDING_DATE today) = remaining_us today mod 86400000000 div 1000000
   \<and> calculate_days_until (at_midnight 2026 12 2) =
        (10, py ''The wedding is in 10 days, 0 hours, and 0 minutes!'')"
proof -
  have "calculate_days_until (at_midnight 2026 12 2) =
        (10, py ''The wedding is in 10 days, 0 hours, and 0 minutes!'')"
    by (simp add: calculate_days_until_def Let_def datetime_sub_def timedelta_of_def
        toordinal_def ymd2ord_def days_before_year_def days_before_month_def
        DAYS_BEFORE_MONTH_def is_leap_def WEDDING_DATE_def at_midnight_def
        countdown_text_def str_int_def py_def)
  then show ?thesis
    using calculate_days_until_eq [of today] datetime_sub_total [of today] by simp
qed

lemmas calendar_defs = toordinal_def ymd2ord_def days_before_year_def days_before_month_def
  DAYS_BEFORE_MONTH_def is_leap_def

text \<open>
  Claim C5, as stated, fails: on Friday 2026-12-04 at noon seven and a half days remain,
  which is more than 7 and at most 30 days, and \<open>auto_post_countdown\<close> posts although
  the day is not a Monday.
\<close>

theorem auto_post_countdown_friday_noon:
  "7 * 86400000000 < remaining_us friday_noon
   \<and> remaining_us friday_noon \<le> 30 * 86400000000
   \<and> weekday friday_noon = 4
   \<and> outbox (auto_post_countdown friday_noon friday_noon initial) =
       [(- 4530637343, Text (py ''The wedding is in 7 days, 12 hours, and 0 minutes!''))]"
proof -
  have r: "remaining_us friday_noon = 648000000000"
    by (simp add: remaining_us_def calendar_defs WEDDING_DATE_def friday_noon_def)
  have w: "weekday friday_noon = 4"
    by (simp add: weekday_def calendar_defs friday_noon_def)
  have c: "calculate_days_until friday_noon =
      (7, py ''The wedding is in 7 days, 12 hours, and 0 minutes!'')"
    by (simp add: calculate_days_until_def Let_def datetime_sub_def timedelta_of_def
        calendar_defs WEDDING_DATE_def friday_noon_def countdown_text_def str_int_def py_def)
  have "outbox (auto_post_countdown friday_noon friday_noon initial) =
       [(- 4530637343, Text (py ''The wedding is in 7 days, 12 hours, and 0 minutes!''))]"
    by (simp add: auto_post_countdown_def c send_message_def initial_def)
  with r w show ?thesis by simp
qed

text \<open>
  Claim C5, amended. Let the days remaining be \<open>delta.days\<close>, the whole days of the time
  to the wedding, rounded down. With more than 30 days remaining
  \<open>auto_post_countdown\<close> posts the countdown message exactly when the day of the month
  is 1; with more than 7 and at most 30, exactly when the day is a Monday; with at most
  7, always. Every post goes to the chat \<open>-4530637343\<close>.
\<close>

theorem auto_post_countdown_policy:
  "fst (calculate_days_until today) = remaining_us today div 86400000000
   \<and> (30 < fst (calculate_days_until today) \<longrightarrow>
      outbox (auto_post_countdown today now s) =
        (if day now = 1
         then outbox s @ [(- 4530637343, Text (snd (calculate_days_until today)))]
         else outbox s))
   \<and> (7 < fst (calculate_days_until today) \<and> fst (calculate_days_until today) \<le> 30 \<longrightarrow>
      outbox (auto_post_countdown today now s) =
        (if weekday now = 0
         then outbox s @ [(- 4530637343, Text (snd (calculate_days_until today)))]
         else outbox s))
   \<and> (fst (calculate_days_until today) \<le> 7 \<longrightarrow>
      outbox (auto_post_countdown today now s) =
        outbox s @ [(- 4530637343, Text (snd (calculate_days_until today)))])"
proof -
  have "fst (calculate_days_until today) = remaining_us today div 86400000000"
    using datetime_sub_total(1) [of today] by (simp add: calculate_days_until_eq)
  then show ?thesis
    by (simp add: auto_post_countdown_def send_message_def split_beta Let_def)
qed

lemma days_at_midnight:
  "fst (calculate_days_until (at_midnight 2026 10 28)) = 45"
  "fst (calculate_days_until (at_midnight 2026 11 1)) = 41"
  "fst (calculate_days_until (at_midnight 2026 11 27)) = 15"
  "fst (calculate_days_until (at_midnight 2026 11 23)) = 19"
  "fst (calculate_days_until (at_midnight 2026 12 9)) = 3"
  by (simp_all add: calculate_days_until_def Let_def datetime_sub_def timedelta_of_def
        toordinal_def ymd2ord_def days_before_year_def days_before_month_def
        DAYS_BEFORE_MONTH_def is_leap_def WEDDING_DATE_def at_midnight_def)

lemma weekday_at_midnight:
  "weekday (at_midnight 2026 11 27) = 4"
  "weekday (at_midnight 2026 11 23) = 0"
  by (simp_all add: weekday_def toordinal_def ymd2ord_def days_before_year_def
        days_before_month_def DAYS_BEFORE_MONTH_def is_leap_def at_midnight_def)

lemma days_monday_morning:
  "calculate_days_until monday_morning =
     (18, py ''The wedding is in 18 days, 14 hours, and 30 minutes!'')"
  by (simp add: calculate_days_until_def Let_def datetime_sub_def timedelta_of_def
        calendar_defs WEDDING_DATE_def monday_morning_def countdown_text_def str_int_def py_def)

lemma weekday_monday_morning: "weekday monday_morning = 0"
  by (simp add: weekday_def calendar_defs monday_morning_def)

theorem auto_post_countdown_policy_witness:
  "(30::int) < 45
   \<and> outbox (auto_post_countdown (at_midnight 2026 10 28) (at_midnight 2026 10 28) initial) = []
   \<and> outbox (auto_post_countdown (at_midnight 2026 11 1) (at_midnight 2026 11 1) initial) =
       [(- 4530637343, Text (snd (calculate_days_until (at_midnight 2026 11 1))))]
   \<and> (7::int) < 15 \<and> (15::int) \<le> 30
   \<and> outbox (auto_post_countdown (at_midnight 2026 11 27) (at_midnight 2026 11 27) initial) = []
   \<and> outbox (auto_post_countdown (at_midnight 2026 11 23) (at_midnight 2026 11 23) initial) =
       [(- 4530637343, Text (snd (calculate_days_until (at_midnight 2026 11 23))))]
   \<and> (7::int) < 18 \<and> (18::int) \<le> 30
   \<and> outbox (auto_post_countdown monday_morning monday_morning initial) =
       [(- 4530637343, Text (py ''The wedding is in 18 days, 14 hours, and 30 minutes!''))]
   \<and> (3::int) \<le> 7
   \<and> outbox (auto_post_countdown (at_midnight 2026 12 9) (at_midnight 2026 12 9) initial) =
       [(- 4530637343, Text (snd (calculate_days_until (at_midnight 2026 12 9))))]"
proof -
  have d: "day (at_midnight 2026 10 28) = 28" "day (at_midnight 2026 11 1) = 1"
    by (simp_all add: at_midnight_def)
  have o: "outbox initial = []" by (simp add: initial_def)
  show ?thesis
    using auto_post_countdown_policy [of "at_midnight 2026 10 28" "at_midnight 2026 10 28" initial]
      auto_post_countdown_policy [of "at_midnight 2026 11 1" "at_midnight 2026 11 1" initial]
      auto_post_countdown_policy [of "at_midnight 2026 11 27" "at_midnight 2026 11 27" initial]
      auto_post_countdown_policy [of "at_midnight 2026 11 23" "at_midnight 2026 11 23" initial]
      auto_post_countdown_policy [of monday_morning monday_morning initial]
      auto_post_countdown_policy [of "at_midnight 2026 12 9" "at_midnight 2026 12 9" initial]
    by (simp add: days_at_midnight weekday_at_midnight days_monday_morning
        weekday_monday_morning d o)
qed

text \<open>
  Claim C9. At every valid time strictly after the wedding date the days remaining are
  negative, \<open>auto_post_countdown\<close> posts the countdown message, and the hours and
  minutes in the message lie in 0..23 and 0..59.
\<close>

theorem countdown_after_wedding:
  assumes "valid_datetime today" and "datetime_less WEDDING_DATE today"
  shows "fst (calculate_days_until today) < 0
     \<and> outbox (auto_post_countdown today now s) =
         outbox s @ [(- 4530637343, Text (snd (calculate_days_until today)))]
     \<and> (\<exists>h m. 0 \<le> h \<and> h \<le> 23 \<and> 0 \<le> m \<and> m \<le> 59
          \<and> snd (calculate_days_until today) =
              countdown_text (fst (calculate_days_until today)) h m)"
proof -
  let ?delta = "datetime_sub WEDDING_DATE today"
  have neg: "remaining_us today < 0"
    using assms by (rule remaining_us_after)
  have "days ?delta = remaining_us today div 86400000000"
    by (rule datetime_sub_total)
  also have "\<dots> < 0"
    using neg by (simp add: div_neg_pos_less0)
  finally have d: "fst (calculate_days_until today) < 0"
    by (simp add: calculate_days_until_eq)
  have sent: "outbox (auto_post_countdown today now s) =
         outbox s @ [(- 4530637343, Text (snd (calculate_days_until today)))]"
    using d by (simp add: auto_post_countdown_def send_message_def split_beta Let_def)
  have "0 \<le> seconds ?delta \<and> seconds ?delta < 86400"
    unfolding datetime_sub_def Let_def by (rule seconds_range)
  then have r: "0 \<le> seconds ?delta div 3600 \<and> seconds ?delta div 3600 \<le> 23
      \<and> 0 \<le> seconds ?delta mod 3600 div 60 \<and> seconds ?delta mod 3600 div 60 \<le> 59"
    using hours_minutes_range by blast
  have "snd (calculate_days_until today) =
      countdown_text (fst (calculate_days_until today)) (seconds ?delta div 3600)
        (seconds ?delta mod 3600 div 60)"
    by (simp add: calculate_days_until_eq)
  with r have "\<exists>h m. 0 \<le> h \<and> h \<le> 23 \<and> 0 \<le> m \<and> m \<le> 59
          \<and> snd (calculate_days_until today) =
              countdown_text (fst (calculate_days_until today)) h m"
    by blast
  with d sent show ?thesis by blast
qed

theorem countdown_after_wedding_witness:
  "valid_datetime day_after \<and> datetime_less WEDDING_DATE day_after
   \<and> calculate_days_until day_after =
       (- 2, py ''The wedding is in -2 days, 14 hours, and 30 minutes!'')
   \<and> outbox (auto_post_countdown day_after day_after initial) =
       [(- 4530637343, Text (py ''The wedding is in -2 days, 14 hours, and 30 minutes!''))]"
proof -
  have v: "valid_datetime day_after"
    by (simp add: valid_datetime_def day_after_def days_in_month_def DAYS_IN_MONTH_def)
  have l: "datetime_less WEDDING_DATE day_after"
    by (simp add: datetime_less_def day_after_def WEDDING_DATE_def)
  have c: "calculate_days_until day_after =
       (- 2, py ''The wedding is in -2 days, 14 hours, and 30 minutes!'')"
    by (simp add: calculate_days_until_def Let_def datetime_sub_def timedelta_of_def
        toordinal_def ymd2ord_def days_before_year_def days_before_month_def
        DAYS_BEFORE_MONTH_def is_leap_def WEDDING_DATE_def day_after_def
        countdown_text_def str_int_def py_def)
  show ?thesis
    using countdown_after_wedding [OF v l, of day_after initial] v l c
    by (simp add: initial_def)
qed

section \<open>The song dialog among other operations\<close>

lemma other_event:
  assumes "\<forall>u. e \<noteq> GetSongName u" and "\<forall>u. e \<noteq> GetSongArtist u"
  shows "spec_song_lines pending (e # es) = spec_song_lines pending es"
    and "in_turn chat_of (e # es) = in_turn chat_of es"
    and "SONG_FILE (step e s) = SONG_FILE s"
    and "user_data (step e s) = user_data s"
proof -
  show "spec_song_lines pending (e # es) = spec_song_lines pending es"
    using assms by (cases e) simp_all
  show "in_turn chat_of (e # es) = in_turn chat_of es"
    using assms by (cases e) simp_all
  show "SONG_FILE (step e s) = SONG_FILE s"
    using assms by (cases e) (simp_all add: handler_files)
  show "user_data (step e s) = user_data s"
    using assms
    by (cases e)
      (simp_all add: start_def countdown_def faq_def quote_def display_lists_def song_command_def
        suggest_activity_def get_activity_def track_messages_def auto_post_countdown_def
        error_handler_def send_message_def logger_error_def get_quote_def split_beta Let_def
        split: option.splits sum.splits)
qed

lemma get_song_name_state:
  "SONG_FILE (snd (get_song_name u s)) = SONG_FILE s"
  "user_data (snd (get_song_name u s)) =
     (user_data s)(user_id u := (user_data s (user_id u))(py ''song_name'' \<mapsto> message_text u))"
  by (simp_all add: get_song_name_def send_message_def Let_def)

lemma get_song_artist_user_data:
  "user_data (snd (get_song_artist u s)) = user_data s"
  by (simp add: get_song_artist_def send_message_def Let_def)

lemma run_dialogs:
  assumes "in_turn chat_of es"
    and "\<forall>u c. chat_of u = Some c \<longrightarrow>
           (\<exists>t. pending (c, u) = Some t \<and> user_data s u (py ''song_name'') = Some t)"
  shows "content (SONG_FILE (run es s)) =
           content (SONG_FILE s) @ concat (map (\<lambda>l. l @ [newline]) (spec_song_lines pending es))"
  using assms
proof (induction es arbitrary: s chat_of pending)
  case Nil
  then show ?case by simp
next
  case (Cons e es)
  note inv = Cons.prems(2)
  consider (name) u where "e = GetSongName u" | (artist) u where "e = GetSongArtist u"
    | (other) "\<forall>u. e \<noteq> GetSongName u" "\<forall>u. e \<noteq> GetSongArtist u"
    by blast
  then show ?case
  proof cases
    case name
    let ?c = "chat_of(user_id u := Some (chat_id u))"
    let ?p = "pending((chat_id u, user_id u) := Some (message_text u))"
    let ?s = "snd (get_song_name u s)"
    have t: "in_turn ?c es" using Cons.prems(1) name by simp
    have i: "\<forall>v c. ?c v = Some c \<longrightarrow>
           (\<exists>t. ?p (c, v) = Some t \<and> user_data ?s v (py ''song_name'') = Some t)"
      using inv by (simp add: get_song_name_state)
    have "content (SONG_FILE (run es ?s)) =
           content (SONG_FILE ?s) @ concat (map (\<lambda>l. l @ [newline]) (spec_song_lines ?p es))"
      using t i by (rule Cons.IH)
    then show ?thesis by (simp add: name get_song_name_state)
  next
    case artist
    from Cons.prems(1) artist have here: "chat_of (user_id u) = Some (chat_id u)"
      and t: "in_turn (chat_of(user_id u := None)) es"
      by simp_all
    from inv here obtain title where p: "pending (chat_id u, user_id u) = Some title"
      and d: "user_data s (user_id u) (py ''song_name'') = Some title"
      by blast
    let ?c = "chat_of(user_id u := None)"
    let ?p = "pending((chat_id u, user_id u) := None)"
    let ?s = "snd (get_song_artist u s)"
    have i: "\<forall>v c. ?c v = Some c \<longrightarrow>
           (\<exists>t. ?p (c, v) = Some t \<and> user_data ?s v (py ''song_name'') = Some t)"
      using inv by (simp add: get_song_artist_user_data)
    have ih: "content (SONG_FILE (run es ?s)) =
           content (SONG_FILE ?s) @ concat (map (\<lambda>l. l @ [newline]) (spec_song_lines ?p es))"
      using t i by (rule Cons.IH)
    have w: "content (SONG_FILE ?s) =
        content (SONG_FILE s) @ song_entry (title, message_text u) @ [newline]"
      by (simp add: get_song_artist_files d format_optional_def song_entry_def content_def)
    show ?thesis
      by (simp add: artist p ih w)
  next
    case other
    have t: "in_turn chat_of es"
      using Cons.prems(1) other_event(2) [OF other] by simp
    have i: "\<forall>v c. chat_of v = Some c \<longrightarrow>
           (\<exists>t. pending (c, v) = Some t \<and> user_data (step e s) v (py ''song_name'') = Some t)"
      using inv other_event(4) [OF other] by simp
    have "content (SONG_FILE (run es (step e s))) =
           content (SONG_FILE (step e s)) @ concat (map (\<lambda>l. l @ [newline]) (spec_song_lines pending es))"
      using t i by (rule Cons.IH)
    then show ?thesis
      using other_event(1) [OF other] other_event(3) [OF other] by simp
  qed
qed

lemma spec_song_lines_clean:
  assumes "\<forall>u. GetSongName u \<in> set es \<or> GetSongArtist u \<in> set es \<longrightarrow>
             newline \<notin> set (message_text u)"
    and "\<forall>k t. pending k = Some t \<longrightarrow> newline \<notin> set t"
  shows "\<forall>l \<in> set (spec_song_lines pending es). newline \<notin> set l"
  using assms
proof (induction es arbitrary: pending)
  case Nil
  then show ?case by simp
next
  case (Cons e es)
  have rest: "\<forall>u. GetSongName u \<in> set es \<or> GetSongArtist u \<in> set es \<longrightarrow>
             newline \<notin> set (message_text u)"
    using Cons.prems(1) by auto
  consider (name) u where "e = GetSongName u" | (artist) u where "e = GetSongArtist u"
    | (other) "\<forall>u. e \<noteq> GetSongName u" "\<forall>u. e \<noteq> GetSongArtist u"
    by blast
  then show ?case
  proof cases
    case name
    have m: "newline \<notin> set (message_text u)"
      using Cons.prems(1) name by auto
    have "\<forall>k t. (pending((chat_id u, user_id u) := Some (message_text u))) k = Some t
        \<longrightarrow> newline \<notin> set t"
      using Cons.prems(2) m by auto
    with rest have "\<forall>l \<in> set (spec_song_lines (pending((chat_id u, user_id u) := Some (message_text u))) es).
        newline \<notin> set l"
      by (rule Cons.IH)
    then show ?thesis by (simp add: name)
  next
    case artist
    have m: "newline \<notin> set (message_text u)"
      using Cons.prems(1) artist by auto
    show ?thesis
    proof (cases "pending (chat_id u, user_id u)")
      case None
      have "\<forall>l \<in> set (spec_song_lines pending es). newline \<notin> set l"
        using rest Cons.prems(2) by (rule Cons.IH)
      then show ?thesis by (simp add: artist None)
    next
      case (Some title)
      have "newline \<notin> set title" using Cons.prems(2) Some by blast
      then have e: "newline \<notin> set (song_entry (title, message_text u))"
        using m song_entry_no_newline [of "(title, message_text u)"] by simp
      have "\<forall>k t. (pending((chat_id u, user_id u) := None)) k = Some t \<longrightarrow> newline \<notin> set t"
        using Cons.prems(2) by auto
      with rest have "\<forall>l \<in> set (spec_song_lines (pending((chat_id u, user_id u) := None)) es).
          newline \<notin> set l"
        by (rule Cons.IH)
      then show ?thesis using e by (simp add: artist Some)
    qed
  next
    case other
    have "\<forall>l \<in> set (spec_song_lines pending es). newline \<notin> set l"
      using rest Cons.prems(2) by (rule Cons.IH)
    then show ?thesis using other_event(1) [OF other] by simp
  qed
qed

text \<open>
  Claim C2, amended. Take any sequence of operations of the bot in which every artist
  reply answers the title that the same user entered last, and entered in the same chat.
  Afterwards the text of the song file is its prior text followed by
  \<open><title> - <artist>\<close> and a line feed for each artist reply, in the order of the
  replies, with the title entered in that dialog. When moreover the prior text is empty
  or ends in a line feed and no title or artist contains a line feed, the file has
  exactly one additional line \<open><title> - <artist>\<close> per submission after its prior
  lines. In particular this holds for submissions made one after the other.
\<close>

theorem song_dialog_appends:
  "(in_turn (\<lambda>u. None) es \<longrightarrow>
      content (SONG_FILE (run es s)) =
        content (SONG_FILE s)
          @ concat (map (\<lambda>l. l @ [newline]) (spec_song_lines (\<lambda>k. None) es)))
   \<and> (in_turn (\<lambda>u. None) es
       \<and> (content (SONG_FILE s) = [] \<or> last (content (SONG_FILE s)) = newline)
       \<and> (\<forall>u. GetSongName u \<in> set es \<or> GetSongArtist u \<in> set es \<longrightarrow>
              newline \<notin> set (message_text u))
      \<longrightarrow> lines_of (content (SONG_FILE (run es s))) =
            lines_of (content (SONG_FILE s)) @ spec_song_lines (\<lambda>k. None) es)
   \<and> content (SONG_FILE (submit_songs ps s)) =
        content (SONG_FILE s) @ concat (map (\<lambda>(u, p). song_entry p @ [newline]) ps)
   \<and> ((content (SONG_FILE s) = [] \<or> last (content (SONG_FILE s)) = newline)
       \<and> (\<forall>(u, p) \<in> set ps. newline \<notin> set (fst p) \<and> newline \<notin> set (snd p))
      \<longrightarrow> lines_of (content (SONG_FILE (submit_songs ps s))) =
            lines_of (content (SONG_FILE s)) @ map (\<lambda>(u, p). song_entry p) ps)"
proof -
  let ?ds = "spec_song_lines (\<lambda>k. None) es"
  have text_eq: "in_turn (\<lambda>u. None) es \<longrightarrow>
      content (SONG_FILE (run es s)) =
        content (SONG_FILE s) @ concat (map (\<lambda>l. l @ [newline]) ?ds)"
  proof
    assume "in_turn (\<lambda>u. None) es"
    then show "content (SONG_FILE (run es s)) =
        content (SONG_FILE s) @ concat (map (\<lambda>l. l @ [newline]) ?ds)"
      by (rule run_dialogs) simp
  qed
  have lines_eq: "in_turn (\<lambda>u. None) es
       \<and> (content (SONG_FILE s) = [] \<or> last (content (SONG_FILE s)) = newline)
       \<and> (\<forall>u. GetSongName u \<in> set es \<or> GetSongArtist u \<in> set es \<longrightarrow>
              newline \<notin> set (message_text u))
      \<longrightarrow> lines_of (content (SONG_FILE (run es s))) = lines_of (content (SONG_FILE s)) @ ?ds"
  proof
    assume a: "in_turn (\<lambda>u. None) es
       \<and> (content (SONG_FILE s) = [] \<or> last (content (SONG_FILE s)) = newline)
       \<and> (\<forall>u. GetSongName u \<in> set es \<or> GetSongArtist u \<in> set es \<longrightarrow>
              newline \<notin> set (message_text u))"
    then have ended: "content (SONG_FILE s) = [] \<or> last (content (SONG_FILE s)) = newline"
      by blast
    from a have clean: "\<forall>u. GetSongName u \<in> set es \<or> GetSongArtist u \<in> set es \<longrightarrow>
              newline \<notin> set (message_text u)"
      by blast
    have "\<forall>l \<in> set ?ds. newline \<notin> set l"
      using clean by (rule spec_song_lines_clean) simp
    then have "lines_of (concat (map (\<lambda>l. l @ [newline]) ?ds)) = ?ds"
      by (rule lines_of_entries)
    moreover have "content (SONG_FILE (run es s)) =
        content (SONG_FILE s) @ concat (map (\<lambda>l. l @ [newline]) ?ds)"
      using a text_eq by blast
    ultimately show "lines_of (content (SONG_FILE (run es s))) =
        lines_of (content (SONG_FILE s)) @ ?ds"
      using lines_of_append [OF ended] by simp
  qed
  let ?ls = "map (\<lambda>(u, p). song_entry p) ps"
  have eq: "concat (map (\<lambda>(u, p). song_entry p @ [newline]) ps) = concat (map (\<lambda>l. l @ [newline]) ?ls)"
    by (simp add: comp_def case_prod_unfold)
  have pairs: "(content (SONG_FILE s) = [] \<or> last (content (SONG_FILE s)) = newline)
       \<and> (\<forall>(u, p) \<in> set ps. newline \<notin> set (fst p) \<and> newline \<notin> set (snd p))
      \<longrightarrow> lines_of (content (SONG_FILE (submit_songs ps s))) =
            lines_of (content (SONG_FILE s)) @ ?ls"
  proof
    assume a: "(content (SONG_FILE s) = [] \<or> last (content (SONG_FILE s)) = newline)
       \<and> (\<forall>(u, p) \<in> set ps. newline \<notin> set (fst p) \<and> newline \<notin> set (snd p))"
    then have ended: "content (SONG_FILE s) = [] \<or> last (content (SONG_FILE s)) = newline"
      by blast
    have "\<forall>l \<in> set ?ls. newline \<notin> set l"
      using a song_entry_no_newline by auto
    then have "lines_of (concat (map (\<lambda>l. l @ [newline]) ?ls)) = ?ls"
      by (rule lines_of_entries)
    then show "lines_of (content (SONG_FILE (submit_songs ps s))) =
            lines_of (content (SONG_FILE s)) @ ?ls"
      using lines_of_append [OF ended] by (simp add: submit_songs_file eq)
  qed
  from text_eq lines_eq submit_songs_file [of ps s] pairs show ?thesis
    by blast
qed

theorem song_dialog_appends_witness:
  "in_turn (\<lambda>u. None) two_dialogs
   \<and> content (SONG_FILE initial) = []
   \<and> newline \<notin> set (py ''Yesterday'') \<and> newline \<notin> set (py ''Thriller'')
   \<and> newline \<notin> set (py ''Beatles'') \<and> newline \<notin> set (py ''Jackson'')
   \<and> spec_song_lines (\<lambda>k. None) two_dialogs = [py ''Yesterday - Beatles'', py ''Thriller - Jackson'']
   \<and> lines_of (content (SONG_FILE (run two_dialogs initial)))
       = [py ''Yesterday - Beatles'', py ''Thriller - Jackson'']
   \<and> newline \<notin> set (py ''Hey Jude'')
   \<and> lines_of (content (SONG_FILE (submit_songs
         [(alice, (py ''Yesterday'', py ''Beatles'')), (alice, (py ''Hey Jude'', py ''Beatles''))] initial)))
       = [py ''Yesterday - Beatles'', py ''Hey Jude - Beatles'']"
proof -
  have t: "in_turn (\<lambda>u. None) two_dialogs"
    by (simp add: two_dialogs_def alice_def bob_def)
  have d: "spec_song_lines (\<lambda>k. None) two_dialogs = [py ''Yesterday - Beatles'', py ''Thriller - Jackson'']"
    by (simp add: two_dialogs_def alice_def bob_def song_entry_def py_def)
  have c: "\<forall>u. GetSongName u \<in> set two_dialogs \<or> GetSongArtist u \<in> set two_dialogs \<longrightarrow>
              newline \<notin> set (message_text u)"
    by (auto simp add: two_dialogs_def py_def newline_def)
  have i: "content (SONG_FILE initial) = []"
    by (simp add: initial_def content_def)
  have n: "newline \<notin> set (py ''Yesterday'')" "newline \<notin> set (py ''Thriller'')"
    "newline \<notin> set (py ''Beatles'')" "newline \<notin> set (py ''Jackson'')"
    "newline \<notin> set (py ''Hey Jude'')"
    by (simp_all add: py_def newline_def)
  let ?ps = "[(alice, (py ''Yesterday'', py ''Beatles'')), (alice, (py ''Hey Jude'', py ''Beatles''))]"
  have e: "content (SONG_FILE initial) = [] \<or> last (content (SONG_FILE initial)) = newline"
    using i by simp
  have h: "\<forall>(u, p) \<in> set ?ps. newline \<notin> set (fst p) \<and> newline \<notin> set (snd p)"
    using n by simp
  note th = song_dialog_appends [of two_dialogs initial ?ps]
  have "lines_of (content (SONG_FILE (run two_dialogs initial))) =
      lines_of (content (SONG_FILE initial)) @ spec_song_lines (\<lambda>k. None) two_dialogs"
    using th t e c by blast
  then have r1: "lines_of (content (SONG_FILE (run two_dialogs initial)))
       = [py ''Yesterday - Beatles'', py ''Thriller - Jackson'']"
    by (simp add: i d lines_of_def)
  have "lines_of (content (SONG_FILE (submit_songs ?ps initial))) =
      lines_of (content (SONG_FILE initial)) @ map (\<lambda>(u, p). song_entry p) ?ps"
    using th e h by blast
  then have r2: "lines_of (content (SONG_FILE (submit_songs ?ps initial)))
       = [py ''Yesterday - Beatles'', py ''Hey Jude - Beatles'']"
    by (simp add: i lines_of_def song_entry_def py_def)
  from t i n d r1 r2 show ?thesis by blast
qed

end
